theory Spec2Isabelle
  imports Main "HOL-Library.AList" "HOL-Library.Char_ord" "HOL-Library.List_Lexorder"
    "HOL-Library.Product_Lexorder" "HOL-Library.Multiset"
begin

section \<open>The Python built-ins that airtravel.py relies on\<close>

text \<open>
  A Python \<open>str\<close> is modelled as a \<^typ>\<open>string\<close>: a list of characters whose codes
  (\<open>of_char\<close>, 0 to 255) are read as Unicode code points, so that \<open>take\<close>, \<open>drop\<close>,
  \<open>last\<close> and \<open>butlast\<close> are Python's slices \<open>s[:n]\<close>, \<open>s[n:]\<close>, \<open>s[-1]\<close> and
  \<open>s[:-1]\<close>. The character classes below are those of Python 3 on the code points
  0 to 255. Exceptions are values of the type \<open>error\<close>: the class of the exception and,
  for a \<open>ValueError\<close>, the place of airtravel.py that raises it.
\<close>

datatype value_error =
    NoAirlineCode            \<comment> \<open>line 8: "No airline code in ..."\<close>
  | InvalidAirlineCode       \<comment> \<open>line 11: "Invalid airline code ..."\<close>
  | InvalidRouteNumber       \<comment> \<open>line 14: "Invalid route number ..."\<close>
  | InvalidLiteral           \<comment> \<open>line 13: raised by \<open>int\<close> itself, not caught\<close>
  | InvalidSeatLetter        \<comment> \<open>line 45: "Invalid seat letter ..."\<close>
  | InvalidSeatRow           \<comment> \<open>line 51: "Invalid seat row ..."\<close>
  | InvalidRowNumber         \<comment> \<open>line 54: "Invalid row number ..."\<close>
  | SeatAlreadyOccupied      \<comment> \<open>line 72: "Seat already occupied ..."\<close>
  | NoPassengerToRelocate    \<comment> \<open>line 86: "No passenger to relocate from ..."\<close>
  | SeatOccupied             \<comment> \<open>line 90: "Seat ... already occupied"\<close>

datatype error = ValueError value_error | IndexError | KeyError | TypeError

definition in_range :: "nat \<Rightarrow> nat \<Rightarrow> char \<Rightarrow> bool" where
  "in_range lo hi c = (lo \<le> of_char c \<and> of_char c \<le> hi)"

definition char_isupper :: "char \<Rightarrow> bool" where
  "char_isupper c = (in_range 65 90 c \<or> in_range 192 214 c \<or> in_range 216 222 c)"

definition char_islower :: "char \<Rightarrow> bool" where
  "char_islower c = (in_range 97 122 c \<or> in_range 170 170 c \<or> in_range 181 181 c
     \<or> in_range 186 186 c \<or> in_range 223 246 c \<or> in_range 248 255 c)"

definition char_isalpha :: "char \<Rightarrow> bool" where
  "char_isalpha c = (in_range 65 90 c \<or> in_range 97 122 c \<or> in_range 170 170 c
     \<or> in_range 181 181 c \<or> in_range 186 186 c \<or> in_range 192 214 c
     \<or> in_range 216 246 c \<or> in_range 248 255 c)"

definition char_isdecimal :: "char \<Rightarrow> bool" where
  "char_isdecimal c = in_range 48 57 c"

definition char_isdigit :: "char \<Rightarrow> bool" where
  "char_isdigit c = (in_range 48 57 c \<or> in_range 178 179 c \<or> in_range 185 185 c)"

text \<open>The white space that \<open>int\<close> skips around a literal.\<close>

definition char_isspace :: "char \<Rightarrow> bool" where
  "char_isspace c = (in_range 9 13 c \<or> in_range 32 32 c \<or> in_range 133 133 c
     \<or> in_range 160 160 c)"

definition isalpha :: "string \<Rightarrow> bool" where
  "isalpha s = (s \<noteq> [] \<and> list_all char_isalpha s)"

definition isdigit :: "string \<Rightarrow> bool" where
  "isdigit s = (s \<noteq> [] \<and> list_all char_isdigit s)"

text \<open>
  \<open>str.isupper\<close>: no character is lowercase (or titlecase: there is no titlecase
  character below 256) and at least one is uppercase. The flag is CPython's \<open>cased\<close>.
\<close>

fun isupper_loop :: "bool \<Rightarrow> string \<Rightarrow> bool" where
  "isupper_loop cased [] = cased"
| "isupper_loop cased (c # cs) =
     (if char_islower c then False else isupper_loop (cased \<or> char_isupper c) cs)"

definition isupper :: "string \<Rightarrow> bool" where
  "isupper s = isupper_loop False s"

definition digit_value :: "char \<Rightarrow> int" where
  "digit_value c = int (of_char c) - 48"

text \<open>
  The digits of an \<open>int\<close> literal: decimal digits, with single underscores allowed
  between two digits. \<open>prev\<close> says that the character before was a digit.
\<close>

fun int_digits :: "bool \<Rightarrow> int \<Rightarrow> string \<Rightarrow> int option" where
  "int_digits prev acc [] = (if prev then Some acc else None)"
| "int_digits prev acc (c # cs) =
     (if char_isdecimal c then int_digits True (10 * acc + digit_value c) cs
      else if c = CHR ''_'' \<and> prev then int_digits False acc cs
      else None)"

definition strip :: "string \<Rightarrow> string" where
  "strip s = rev (dropWhile char_isspace (rev (dropWhile char_isspace s)))"

text \<open>
  CPython (3.11 and later) refuses a decimal literal of more than
  \<open>sys.get_int_max_str_digits()\<close> digits, 4300 unless the program changes it, which
  airtravel.py does not. The digits are counted without the sign, the white space and
  the underscores.
\<close>

definition int_max_str_digits :: nat where
  "int_max_str_digits = 4300"

definition int_literal :: "string \<Rightarrow> int option" where
  "int_literal body =
     (if int_max_str_digits < length (filter char_isdecimal body) then None
      else int_digits False 0 body)"

text \<open>
  \<open>int(s)\<close> on a string: \<open>None\<close> is Python's \<open>ValueError\<close>. Python's integers are
  unbounded, and so is the result.
\<close>

definition py_int :: "string \<Rightarrow> int option" where
  "py_int s =
     (case strip s of
        [] \<Rightarrow> None
      | c # cs \<Rightarrow>
          if c = CHR ''-'' then map_option uminus (int_literal cs)
          else if c = CHR ''+'' then int_literal cs
          else int_literal (c # cs))"

text \<open>\<open>str(n)\<close> of an integer, as \<open>"{}".format(n)\<close> writes it.\<close>

definition digit_char :: "nat \<Rightarrow> char" where
  "digit_char d = ''0123456789'' ! d"

fun str_nat :: "nat \<Rightarrow> string" where
  "str_nat n = (if n < 10 then [digit_char n] else str_nat (n div 10) @ [digit_char (n mod 10)])"

declare str_nat.simps [simp del]

definition str_int :: "int \<Rightarrow> string" where
  "str_int i = (if i < 0 then CHR ''-'' # str_nat (nat (- i)) else str_nat (nat i))"

text \<open>
  \<open>xs[i]\<close> on a list: a negative index counts from the end, an index out of range
  raises \<open>IndexError\<close>.
\<close>

definition list_getitem :: "'a list \<Rightarrow> int \<Rightarrow> error + 'a" where
  "list_getitem xs i =
     (if 0 \<le> i \<and> i < int (length xs) then Inr (xs ! nat i)
      else if i < 0 \<and> 0 \<le> int (length xs) + i then Inr (xs ! nat (int (length xs) + i))
      else Inl IndexError)"

definition list_setitem :: "'a list \<Rightarrow> int \<Rightarrow> 'a \<Rightarrow> error + 'a list" where
  "list_setitem xs i v =
     (if 0 \<le> i \<and> i < int (length xs) then Inr (xs[nat i := v])
      else if i < 0 \<and> 0 \<le> int (length xs) + i then Inr (xs[nat (int (length xs) + i) := v])
      else Inl IndexError)"

text \<open>
  A \<open>dict\<close> is an association list in insertion order: reading a missing key raises
  \<open>KeyError\<close>, assigning replaces the value of a present key in place and appends a
  missing one.
\<close>

type_synonym ('k, 'v) dict = "('k \<times> 'v) list"

definition dict_getitem :: "('k, 'v) dict \<Rightarrow> 'k \<Rightarrow> error + 'v" where
  "dict_getitem d k = (case map_of d k of None \<Rightarrow> Inl KeyError | Some v \<Rightarrow> Inr v)"

definition dict_setitem :: "('k, 'v) dict \<Rightarrow> 'k \<Rightarrow> 'v \<Rightarrow> ('k, 'v) dict" where
  "dict_setitem d k v = AList.update k v d"

text \<open>\<open>{k: v for k in ks}\<close>: the keys are inserted in order, a repeated key once.\<close>

definition dict_from_keys :: "'k list \<Rightarrow> 'v \<Rightarrow> ('k, 'v) dict" where
  "dict_from_keys ks v = foldl (\<lambda>d k. dict_setitem d k v) [] ks"

section \<open>Aircraft\<close>

text \<open>
  The classes \<open>Boeing777\<close> and \<open>AirbusA319\<close>, each with its registration. The base
  class \<open>Aircraft\<close> has neither \<open>model\<close> nor \<open>seating_plan\<close>, so no flight can be
  constructed on it. \<open>range(1, n)\<close> is the list \<open>[1..n - 1]\<close>.
\<close>

datatype aircraft = Boeing777 string | AirbusA319 string

fun registration :: "aircraft \<Rightarrow> string" where
  "registration (Boeing777 r) = r"
| "registration (AirbusA319 r) = r"

fun model :: "aircraft \<Rightarrow> string" where
  "model (Boeing777 r) = ''Boeing 777''"
| "model (AirbusA319 r) = ''Airbus A319''"

fun seating_plan :: "aircraft \<Rightarrow> int list \<times> string" where
  "seating_plan (Boeing777 r) = ([1..55], ''ABCDEFGHJK'')"
| "seating_plan (AirbusA319 r) = ([1..22], ''ABCDEF'')"

definition num_seats :: "aircraft \<Rightarrow> int" where
  "num_seats a = (case seating_plan a of (row, row_seats) \<Rightarrow> int (length row) * int (length row_seats))"

section \<open>Flight\<close>

text \<open>
  \<open>_seating\<close> is a list: \<open>None\<close> at index 0, then one \<open>dict\<close> per row, from the seat
  letter to the passenger's name or \<open>None\<close>. A passenger is a name, a string.
\<close>

type_synonym seating = "(char, string option) dict option list"

record flight =
  priv_number :: string
  priv_aircraft :: aircraft
  priv_seating :: seating

text \<open>\<open>Flight.__init__\<close>: the new flight, or the exception raised.\<close>

definition Flight_init :: "string \<Rightarrow> aircraft \<Rightarrow> error + flight" where
  "Flight_init number aircraft =
     (if \<not> isalpha (take 2 number) then Inl (ValueError NoAirlineCode)
      else if \<not> isupper (take 2 number) then Inl (ValueError InvalidAirlineCode)
      else if \<not> isdigit (drop 2 number) then Inl (ValueError InvalidRouteNumber)
      else (case py_int (drop 2 number) of
          None \<Rightarrow> Inl (ValueError InvalidLiteral)
        | Some n \<Rightarrow>
            if \<not> n \<le> 9999 then Inl (ValueError InvalidRouteNumber)
            else (case seating_plan aircraft of (rows, seats) \<Rightarrow>
              Inr \<lparr>priv_number = number, priv_aircraft = aircraft,
                   priv_seating = None # map (\<lambda>_. Some (dict_from_keys seats None)) rows\<rparr>)))"

definition number :: "flight \<Rightarrow> string" where
  "number f = priv_number f"

definition airline :: "flight \<Rightarrow> string" where
  "airline f = take 2 (priv_number f)"

definition aircraft_model :: "flight \<Rightarrow> string" where
  "aircraft_model f = model (priv_aircraft f)"

text \<open>\<open>Flight._parse_seat\<close>. \<open>seat[-1]\<close> of the empty string raises \<open>IndexError\<close>.\<close>

definition parse_seat :: "flight \<Rightarrow> string \<Rightarrow> error + (int \<times> char)" where
  "parse_seat f seat =
     (case seating_plan (priv_aircraft f) of (rows, seat_letters) \<Rightarrow>
        if seat = [] then Inl IndexError
        else if last seat \<notin> set seat_letters then Inl (ValueError InvalidSeatLetter)
        else (case py_int (butlast seat) of
            None \<Rightarrow> Inl (ValueError InvalidSeatRow)
          | Some row \<Rightarrow>
              if row \<notin> set rows then Inl (ValueError InvalidRowNumber)
              else Inr (row, last seat)))"

text \<open>\<open>self._seating[row][letter]\<close>, read and assigned.\<close>

definition seat_get :: "seating \<Rightarrow> int \<Rightarrow> char \<Rightarrow> error + string option" where
  "seat_get sg row letter =
     (case list_getitem sg row of
        Inl e \<Rightarrow> Inl e
      | Inr None \<Rightarrow> Inl TypeError
      | Inr (Some d) \<Rightarrow> dict_getitem d letter)"

definition seat_set :: "seating \<Rightarrow> int \<Rightarrow> char \<Rightarrow> string option \<Rightarrow> error + seating" where
  "seat_set sg row letter v =
     (case list_getitem sg row of
        Inl e \<Rightarrow> Inl e
      | Inr None \<Rightarrow> Inl TypeError
      | Inr (Some d) \<Rightarrow> list_setitem sg row (Some (dict_setitem d letter v)))"

text \<open>
  The methods that change the flight return the outcome (\<open>Inr ()\<close>, or the exception)
  and the flight as the call leaves it, also when it raises.
\<close>

definition allocate_seat :: "flight \<Rightarrow> string \<Rightarrow> string \<Rightarrow> (error + unit) \<times> flight" where
  "allocate_seat f seat passenger =
     (case parse_seat f seat of
        Inl e \<Rightarrow> (Inl e, f)
      | Inr (row, letter) \<Rightarrow>
          (case seat_get (priv_seating f) row letter of
             Inl e \<Rightarrow> (Inl e, f)
           | Inr (Some p) \<Rightarrow> (Inl (ValueError SeatAlreadyOccupied), f)
           | Inr None \<Rightarrow>
               (case seat_set (priv_seating f) row letter (Some passenger) of
                  Inl e \<Rightarrow> (Inl e, f)
                | Inr sg \<Rightarrow> (Inr (), f\<lparr>priv_seating := sg\<rparr>))))"

definition relocate_passenger :: "flight \<Rightarrow> string \<Rightarrow> string \<Rightarrow> (error + unit) \<times> flight" where
  "relocate_passenger f from_seat to_seat =
     (case parse_seat f from_seat of
        Inl e \<Rightarrow> (Inl e, f)
      | Inr (from_row, from_letter) \<Rightarrow>
          (case seat_get (priv_seating f) from_row from_letter of
             Inl e \<Rightarrow> (Inl e, f)
           | Inr None \<Rightarrow> (Inl (ValueError NoPassengerToRelocate), f)
           | Inr (Some p) \<Rightarrow>
               (case parse_seat f to_seat of
                  Inl e \<Rightarrow> (Inl e, f)
                | Inr (to_row, to_letter) \<Rightarrow>
                    (case seat_get (priv_seating f) to_row to_letter of
                       Inl e \<Rightarrow> (Inl e, f)
                     | Inr (Some q) \<Rightarrow> (Inl (ValueError SeatOccupied), f)
                     | Inr None \<Rightarrow>
                         (case seat_get (priv_seating f) from_row from_letter of
                            Inl e \<Rightarrow> (Inl e, f)
                          | Inr v \<Rightarrow>
                              (case seat_set (priv_seating f) to_row to_letter v of
                                 Inl e \<Rightarrow> (Inl e, f)
                               | Inr sg1 \<Rightarrow>
                                   (case seat_set sg1 from_row from_letter None of
                                      Inl e \<Rightarrow> (Inl e, f\<lparr>priv_seating := sg1\<rparr>)
                                    | Inr sg2 \<Rightarrow> (Inr (), f\<lparr>priv_seating := sg2\<rparr>))))))))"

text \<open>\<open>Flight.num_seats_available\<close>: the rows that are not \<open>None\<close>, their empty seats.\<close>

definition num_seats_available :: "flight \<Rightarrow> int" where
  "num_seats_available f =
     sum_list (map (\<lambda>row. int (length (filter (\<lambda>n. n = None) (map snd (the row)))))
                   (filter (\<lambda>row. row \<noteq> None) (priv_seating f)))"

text \<open>
  \<open>Flight._passenger_seats\<close>: the generator's items in order, or the exception a
  lookup raises. \<open>row_passenger_seats\<close> is the inner loop over the seat letters.
\<close>

fun row_passenger_seats :: "seating \<Rightarrow> int \<Rightarrow> string \<Rightarrow> error + (string \<times> string) list" where
  "row_passenger_seats sg row [] = Inr []"
| "row_passenger_seats sg row (letter # letters) =
     (case seat_get sg row letter of
        Inl e \<Rightarrow> Inl e
      | Inr passenger \<Rightarrow>
          (case row_passenger_seats sg row letters of
             Inl e \<Rightarrow> Inl e
           | Inr rest \<Rightarrow>
               Inr (case passenger of
                      None \<Rightarrow> rest
                    | Some p \<Rightarrow> (p, str_int row @ [letter]) # rest)))"

fun rows_passenger_seats :: "seating \<Rightarrow> int list \<Rightarrow> string \<Rightarrow> error + (string \<times> string) list" where
  "rows_passenger_seats sg [] seat_letters = Inr []"
| "rows_passenger_seats sg (row # rows) seat_letters =
     (case row_passenger_seats sg row seat_letters of
        Inl e \<Rightarrow> Inl e
      | Inr here \<Rightarrow>
          (case rows_passenger_seats sg rows seat_letters of
             Inl e \<Rightarrow> Inl e
           | Inr rest \<Rightarrow> Inr (here @ rest)))"

definition passenger_seats :: "flight \<Rightarrow> error + (string \<times> string) list" where
  "passenger_seats f =
     (case seating_plan (priv_aircraft f) of (row_numbers, seat_letters) \<Rightarrow>
        rows_passenger_seats (priv_seating f) row_numbers seat_letters)"

text \<open>
  \<open>Flight.make_boarding_cards\<close>. The printer is a callback with an effect: it maps the
  state of the outside world \<open>'w\<close> before the call to the state after it. \<open>sorted\<close>
  consumes the generator before the first card is printed.
\<close>

definition make_boarding_cards ::
  "flight \<Rightarrow> (string \<Rightarrow> string \<Rightarrow> string \<Rightarrow> string \<Rightarrow> 'w \<Rightarrow> 'w) \<Rightarrow> 'w \<Rightarrow> (error + unit) \<times> 'w" where
  "make_boarding_cards f card_printer w =
     (case passenger_seats f of
        Inl e \<Rightarrow> (Inl e, w)
      | Inr ps \<Rightarrow>
          (Inr (), fold (\<lambda>(passenger, seat). card_printer passenger seat (number f) (aircraft_model f))
                        (sort ps) w))"

text \<open>
  \<open>make_flights\<close>: the two sample flights, or the first exception raised on the way.
  \<open>and_then\<close> runs the next statement on the flight the one before has left.
\<close>

definition and_then :: "(error + unit) \<times> flight \<Rightarrow> (flight \<Rightarrow> (error + unit) \<times> flight) \<Rightarrow> (error + unit) \<times> flight" where
  "and_then r k = (case r of (Inl e, f) \<Rightarrow> (Inl e, f) | (Inr u, f) \<Rightarrow> k f)"

definition make_flights :: "error + flight \<times> flight" where
  "make_flights =
     (case Flight_init ''AB221'' (AirbusA319 ''G-BGT2'') of
        Inl e \<Rightarrow> Inl e
      | Inr f0 \<Rightarrow>
          (case and_then (and_then (and_then (and_then
                  (allocate_seat f0 ''12A'' ''Rahul'')
                  (\<lambda>f. allocate_seat f ''15F'' ''Dinesh Mathur''))
                  (\<lambda>f. allocate_seat f ''15E'' ''Christopher Philips''))
                  (\<lambda>f. allocate_seat f ''1C'' ''Tim Cathy''))
                  (\<lambda>f. allocate_seat f ''1D'' ''John Bushman'') of
             (Inl e, f) \<Rightarrow> Inl e
           | (Inr u, f) \<Rightarrow>
               (case Flight_init ''AF72'' (Boeing777 ''F-GBPS'') of
                  Inl e \<Rightarrow> Inl e
                | Inr g0 \<Rightarrow>
                    (case and_then (and_then (and_then
                            (allocate_seat g0 ''55K'' ''Lisa Rosamund'')
                            (\<lambda>g. allocate_seat g ''33G'' ''Hilary Burt''))
                            (\<lambda>g. allocate_seat g ''4B'' ''Nikhil''))
                            (\<lambda>g. allocate_seat g ''4A'' ''Madhav'') of
                       (Inl e, g) \<Rightarrow> Inl e
                     | (Inr u, g) \<Rightarrow> Inr (f, g)))))"

section \<open>The notions the specification is stated in\<close>

text \<open>
  A flight number that is accepted: two uppercase letters, then a non-empty run of
  decimal digits, no more of them than \<open>int\<close> reads, whose value is at most 9999.
\<close>

definition decimal_value :: "string \<Rightarrow> int" where
  "decimal_value s = foldl (\<lambda>acc c. 10 * acc + digit_value c) 0 s"

definition uppercase_letter :: "char \<Rightarrow> bool" where
  "uppercase_letter c = (char_isalpha c \<and> char_isupper c)"

definition valid_flight_number :: "string \<Rightarrow> bool" where
  "valid_flight_number n =
     (length (take 2 n) = 2 \<and> list_all uppercase_letter (take 2 n) \<and>
      drop 2 n \<noteq> [] \<and> list_all char_isdecimal (drop 2 n) \<and>
      length (drop 2 n) \<le> int_max_str_digits \<and>
      decimal_value (drop 2 n) \<le> 9999)"

text \<open>The occupant of a seat: what reading \<open>_seating[row][letter]\<close> gives.\<close>

definition occupant :: "flight \<Rightarrow> int \<Rightarrow> char \<Rightarrow> error + string option" where
  "occupant f row letter = seat_get (priv_seating f) row letter"

text \<open>The keys of the seating map, row by row: the index of a row and a letter of it.\<close>

definition seating_keys :: "seating \<Rightarrow> (int \<times> char) list" where
  "seating_keys sg =
     concat (map (\<lambda>(i, row). case row of None \<Rightarrow> [] | Some d \<Rightarrow> map (\<lambda>kv. (int i, fst kv)) d)
                 (enumerate 0 sg))"

text \<open>The seats of the bound aircraft's plan, rows outermost.\<close>

definition plan_seats :: "flight \<Rightarrow> (int \<times> char) list" where
  "plan_seats f = (case seating_plan (priv_aircraft f) of (rows, letters) \<Rightarrow> List.product rows letters)"

text \<open>
  A well-formed flight: \<open>None\<close> at index 0, then one \<open>dict\<close> per row of the plan, each
  with the plan's letters as its keys, in order. \<open>Flight.__init__\<close> establishes it and
  \<open>allocate_seat\<close> and \<open>relocate_passenger\<close> keep it.
\<close>

definition row_ok :: "string \<Rightarrow> (char, string option) dict option \<Rightarrow> bool" where
  "row_ok letters row = (case row of None \<Rightarrow> False | Some d \<Rightarrow> map fst d = letters)"

definition flight_inv :: "flight \<Rightarrow> bool" where
  "flight_inv f =
     (case seating_plan (priv_aircraft f) of (rows, letters) \<Rightarrow>
        priv_seating f \<noteq> [] \<and> hd (priv_seating f) = None \<and>
        length (tl (priv_seating f)) = length rows \<and>
        list_all (row_ok letters) (tl (priv_seating f)))"

text \<open>The flights a program can hold: constructed, then changed by the two methods.\<close>

inductive reachable :: "flight \<Rightarrow> bool" where
  constructed: "Flight_init n aircraft = Inr f \<Longrightarrow> reachable f"
| allocated: "reachable f \<Longrightarrow> reachable (snd (allocate_seat f seat passenger))"
| relocated: "reachable f \<Longrightarrow> reachable (snd (relocate_passenger f from_seat to_seat))"

text \<open>
  The passenger and seat designator of every occupied seat of the plan, in the plan's
  order, and a printer that records its calls.
\<close>

definition occupied_pairs :: "flight \<Rightarrow> (string \<times> string) list" where
  "occupied_pairs f =
     concat (map (\<lambda>(row, letter). case occupant f row letter of
                     Inr (Some p) \<Rightarrow> [(p, str_int row @ [letter])]
                   | _ \<Rightarrow> [])
                 (plan_seats f))"

definition recording_printer ::
  "string \<Rightarrow> string \<Rightarrow> string \<Rightarrow> string \<Rightarrow> (string \<times> string \<times> string \<times> string) list
     \<Rightarrow> (string \<times> string \<times> string \<times> string) list" where
  "recording_printer passenger seat flight_number aircraft calls =
     calls @ [(passenger, seat, flight_number, aircraft)]"

text \<open>The empty seats of one entry of \<open>_seating\<close>: none for the \<open>None\<close> at index 0.\<close>

definition row_available :: "(char, string option) dict option \<Rightarrow> int" where
  "row_available row =
     (case row of None \<Rightarrow> 0 | Some d \<Rightarrow> int (length (filter (\<lambda>n. n = None) (map snd d))))"

text \<open>The first of the two sample flights, for the examples below.\<close>

definition flight_f :: flight where
  "flight_f = fst (projr make_flights)"

section \<open>Reading and assigning seats\<close>

lemma plan_rows_positive: "r \<in> set (fst (seating_plan a)) \<Longrightarrow> 1 \<le> r"
  by (cases a) auto

lemma parse_seat_InrD:
  assumes "parse_seat f s = Inr (r, l)"
  shows "s \<noteq> []" and "l = last s" and "py_int (butlast s) = Some r"
    and "r \<in> set (fst (seating_plan (priv_aircraft f)))"
    and "l \<in> set (snd (seating_plan (priv_aircraft f)))" and "1 \<le> r"
proof -
  obtain rows letters where p: "seating_plan (priv_aircraft f) = (rows, letters)"
    by (cases "seating_plan (priv_aircraft f)")
  from assms p show "s \<noteq> []" and "l = last s" and "py_int (butlast s) = Some r"
    and r: "r \<in> set (fst (seating_plan (priv_aircraft f)))"
    and "l \<in> set (snd (seating_plan (priv_aircraft f)))"
    by (auto simp: parse_seat_def split: if_splits option.splits)
  from r show "1 \<le> r" by (rule plan_rows_positive)
qed

lemma seat_get_nonneg:
  "0 \<le> r \<Longrightarrow> seat_get sg r l =
     (if nat r < length sg
      then (case sg ! nat r of None \<Rightarrow> Inl TypeError | Some d \<Rightarrow> dict_getitem d l)
      else Inl IndexError)"
  by (auto simp: seat_get_def list_getitem_def split: option.splits)

lemma seat_set_nonneg:
  "0 \<le> r \<Longrightarrow> seat_set sg r l v =
     (if nat r < length sg
      then (case sg ! nat r of None \<Rightarrow> Inl TypeError
            | Some d \<Rightarrow> Inr (sg[nat r := Some (AList.update l v d)]))
      else Inl IndexError)"
  by (auto simp: seat_set_def list_getitem_def list_setitem_def dict_setitem_def split: option.splits)

lemma seat_get_InrD:
  "0 \<le> r \<Longrightarrow> seat_get sg r l = Inr v \<Longrightarrow>
     nat r < length sg \<and> (\<exists>d. sg ! nat r = Some d \<and> map_of d l = Some v)"
  by (auto simp: seat_get_nonneg dict_getitem_def split: if_splits option.splits)

lemma seat_set_succeeds:
  "0 \<le> r \<Longrightarrow> seat_get sg r l = Inr x \<Longrightarrow> \<exists>sg'. seat_set sg r l v = Inr sg'"
  by (auto simp: seat_set_nonneg dest!: seat_get_InrD)

lemma seat_get_set_same:
  "0 \<le> r \<Longrightarrow> seat_set sg r l v = Inr sg' \<Longrightarrow> seat_get sg' r l = Inr v"
  by (auto simp: seat_set_nonneg seat_get_nonneg dict_getitem_def update_conv'
      split: if_splits option.splits)

lemma seat_get_set_other:
  "0 \<le> r \<Longrightarrow> 0 \<le> r' \<Longrightarrow> (r', l') \<noteq> (r, l) \<Longrightarrow> seat_set sg r l v = Inr sg' \<Longrightarrow>
     seat_get sg' r' l' = seat_get sg r' l'"
  by (auto simp: seat_set_nonneg seat_get_nonneg dict_getitem_def nth_list_update update_conv'
      split: if_splits option.splits)

lemma seat_set_same_value:
  "0 \<le> r \<Longrightarrow> seat_get sg r l = Inr v \<Longrightarrow> seat_set sg r l v = Inr sg"
  by (auto simp: seat_set_nonneg update_triv list_update_same_conv dest!: seat_get_InrD)

lemma seat_set_set_same:
  "0 \<le> r \<Longrightarrow> seat_set sg r l v = Inr sg' \<Longrightarrow> seat_set sg' r l v' = seat_set sg r l v'"
  by (auto simp: seat_set_nonneg update_last split: if_splits option.splits)

section \<open>Allocation and relocation\<close>

lemma allocate_seat_taken:
  "parse_seat f s = Inr (r, l) \<Longrightarrow> seat_get (priv_seating f) r l = Inr (Some q) \<Longrightarrow>
     allocate_seat f s p = (Inl (ValueError SeatAlreadyOccupied), f)"
  by (simp add: allocate_seat_def)

lemma allocate_seat_free:
  assumes "parse_seat f s = Inr (r, l)" and "seat_get (priv_seating f) r l = Inr None"
  shows "\<exists>sg'. seat_set (priv_seating f) r l (Some p) = Inr sg' \<and>
     allocate_seat f s p = (Inr (), f\<lparr>priv_seating := sg'\<rparr>)"
proof -
  from assms(1) have "0 \<le> r" using parse_seat_InrD(6) by force
  with assms(2) obtain sg' where "seat_set (priv_seating f) r l (Some p) = Inr sg'"
    using seat_set_succeeds by blast
  with assms show ?thesis by (simp add: allocate_seat_def)
qed

lemma allocate_seat_failure_unchanged:
  "allocate_seat f s p = (Inl e, f') \<Longrightarrow> f' = f"
  by (auto simp: allocate_seat_def split: sum.splits option.splits prod.splits)

lemma allocate_seat_success:
  assumes "allocate_seat f s p = (Inr u, f')"
  shows "\<exists>r l sg'. parse_seat f s = Inr (r, l) \<and> seat_get (priv_seating f) r l = Inr None \<and>
     seat_set (priv_seating f) r l (Some p) = Inr sg' \<and> f' = f\<lparr>priv_seating := sg'\<rparr>"
  using assms by (auto simp: allocate_seat_def split: sum.splits option.splits prod.splits)

lemma relocate_passenger_moves:
  assumes "parse_seat f a = Inr (r1, l1)" and "seat_get (priv_seating f) r1 l1 = Inr (Some p)"
    and "parse_seat f b = Inr (r2, l2)" and "seat_get (priv_seating f) r2 l2 = Inr None"
  shows "\<exists>sg1 sg2. seat_set (priv_seating f) r2 l2 (Some p) = Inr sg1 \<and>
     seat_set sg1 r1 l1 None = Inr sg2 \<and>
     relocate_passenger f a b = (Inr (), f\<lparr>priv_seating := sg2\<rparr>)"
proof -
  from assms(1) have r1: "0 \<le> r1" using parse_seat_InrD(6) by force
  from assms(3) have r2: "0 \<le> r2" using parse_seat_InrD(6) by force
  from assms(2,4) have ne: "(r1, l1) \<noteq> (r2, l2)" by auto
  from r2 assms(4) obtain sg1 where s1: "seat_set (priv_seating f) r2 l2 (Some p) = Inr sg1"
    using seat_set_succeeds by blast
  from seat_get_set_other [OF r2 r1 ne s1] assms(2)
  have "seat_get sg1 r1 l1 = Inr (Some p)" by simp
  with r1 obtain sg2 where s2: "seat_set sg1 r1 l1 None = Inr sg2"
    using seat_set_succeeds by blast
  from assms s1 s2 show ?thesis by (simp add: relocate_passenger_def)
qed

lemma relocate_passenger_failure_unchanged:
  assumes "relocate_passenger f a b = (Inl e, f')"
  shows "f' = f"
proof (rule ccontr)
  assume neq: "f' \<noteq> f"
  with assms obtain r1 l1 p r2 l2 sg1 where
    pa: "parse_seat f a = Inr (r1, l1)" and ga: "seat_get (priv_seating f) r1 l1 = Inr (Some p)"
    and pb: "parse_seat f b = Inr (r2, l2)" and gb: "seat_get (priv_seating f) r2 l2 = Inr None"
    by (auto simp: relocate_passenger_def split: sum.splits option.splits prod.splits)
  from relocate_passenger_moves [OF pa ga pb gb] assms show False by auto
qed

lemma relocate_passenger_success:
  assumes "relocate_passenger f a b = (Inr u, f')"
  shows "\<exists>r1 l1 p r2 l2 sg1 sg2. parse_seat f a = Inr (r1, l1) \<and>
     seat_get (priv_seating f) r1 l1 = Inr (Some p) \<and> parse_seat f b = Inr (r2, l2) \<and>
     seat_get (priv_seating f) r2 l2 = Inr None \<and>
     seat_set (priv_seating f) r2 l2 (Some p) = Inr sg1 \<and> seat_set sg1 r1 l1 None = Inr sg2 \<and>
     f' = f\<lparr>priv_seating := sg2\<rparr>"
  using assms by (auto simp: relocate_passenger_def split: sum.splits option.splits prod.splits)


lemma occupant_update [simp]:
  "occupant (f\<lparr>priv_seating := sg\<rparr>) r l = seat_get sg r l"
  by (simp add: occupant_def)

lemma parse_seat_update [simp]:
  "parse_seat (f\<lparr>priv_seating := sg\<rparr>) s = parse_seat f s"
  by (simp add: parse_seat_def)

lemma parse_seat_nonneg: "parse_seat f s = Inr (r, l) \<Longrightarrow> 0 \<le> r"
  using parse_seat_InrD(6) by force

lemma relocate_passenger_effect:
  assumes pa: "parse_seat f a = Inr (r1, l1)" and ga: "occupant f r1 l1 = Inr (Some p)"
    and pb: "parse_seat f b = Inr (r2, l2)" and gb: "occupant f r2 l2 = Inr None"
  shows "\<exists>f'. relocate_passenger f a b = (Inr (), f') \<and>
     occupant f' r2 l2 = Inr (Some p) \<and> occupant f' r1 l1 = Inr None \<and>
     (\<forall>r l. 0 \<le> r \<and> (r, l) \<noteq> (r1, l1) \<and> (r, l) \<noteq> (r2, l2) \<longrightarrow>
        occupant f' r l = occupant f r l) \<and>
     priv_number f' = priv_number f \<and> priv_aircraft f' = priv_aircraft f"
proof -
  from pa pb have r1: "0 \<le> r1" and r2: "0 \<le> r2" by (auto dest: parse_seat_nonneg)
  from ga gb have ne: "(r2, l2) \<noteq> (r1, l1)" by auto
  from relocate_passenger_moves [OF pa ga [unfolded occupant_def] pb gb [unfolded occupant_def]]
  obtain sg1 sg2 where s1: "seat_set (priv_seating f) r2 l2 (Some p) = Inr sg1"
    and s2: "seat_set sg1 r1 l1 None = Inr sg2"
    and rel: "relocate_passenger f a b = (Inr (), f\<lparr>priv_seating := sg2\<rparr>)"
    by blast
  have "seat_get sg1 r2 l2 = Inr (Some p)" using seat_get_set_same [OF r2 s1] .
  then have g2: "seat_get sg2 r2 l2 = Inr (Some p)"
    using seat_get_set_other [OF r1 r2 ne s2] by simp
  have g1: "seat_get sg2 r1 l1 = Inr None" using seat_get_set_same [OF r1 s2] .
  have frame: "seat_get sg2 r l = seat_get (priv_seating f) r l"
    if "0 \<le> r" and "(r, l) \<noteq> (r1, l1)" and "(r, l) \<noteq> (r2, l2)" for r l
    using seat_get_set_other [OF r1 that(1) that(2) s2]
      seat_get_set_other [OF r2 that(1) that(3) s1] by simp
  from rel g1 g2 frame show ?thesis by (auto simp: occupant_def)
qed

lemma allocate_seat_effect:
  assumes ps: "parse_seat f s = Inr (r, l)" and g: "occupant f r l = Inr None"
  shows "\<exists>f'. allocate_seat f s p = (Inr (), f') \<and> occupant f' r l = Inr (Some p) \<and>
     (\<forall>r' l'. 0 \<le> r' \<and> (r', l') \<noteq> (r, l) \<longrightarrow> occupant f' r' l' = occupant f r' l') \<and>
     priv_number f' = priv_number f \<and> priv_aircraft f' = priv_aircraft f \<and>
     (\<forall>p'. allocate_seat f' s p' = (Inl (ValueError SeatAlreadyOccupied), f'))"
proof -
  from ps have r: "0 \<le> r" by (rule parse_seat_nonneg)
  from allocate_seat_free [OF ps g [unfolded occupant_def]]
  obtain sg' where s: "seat_set (priv_seating f) r l (Some p) = Inr sg'"
    and al: "allocate_seat f s p = (Inr (), f\<lparr>priv_seating := sg'\<rparr>)"
    by blast
  let ?f' = "f\<lparr>priv_seating := sg'\<rparr>"
  have g': "seat_get sg' r l = Inr (Some p)" using seat_get_set_same [OF r s] .
  have frame: "seat_get sg' r' l' = seat_get (priv_seating f) r' l'"
    if "0 \<le> r'" and "(r', l') \<noteq> (r, l)" for r' l'
    using seat_get_set_other [OF r that s] .
  have again: "allocate_seat ?f' s p' = (Inl (ValueError SeatAlreadyOccupied), ?f')" for p'
    by (rule allocate_seat_taken [where r = r and l = l and q = p]) (simp_all add: ps g')
  from al g' frame again show ?thesis by (auto simp: occupant_def)
qed


section \<open>Well-formed flights\<close>

lemma plan_rows_upto: "fst (seating_plan a) = [1..int (length (fst (seating_plan a)))]"
  by (cases a) simp_all

lemma plan_letters_distinct: "distinct (snd (seating_plan a))"
  by (cases a) simp_all

lemma flight_inv_seat_get:
  assumes inv: "flight_inv f" and r: "r \<in> set (fst (seating_plan (priv_aircraft f)))"
    and l: "l \<in> set (snd (seating_plan (priv_aircraft f)))"
  shows "\<exists>v. seat_get (priv_seating f) r l = Inr v"
proof -
  obtain rows letters where p: "seating_plan (priv_aircraft f) = (rows, letters)"
    by (cases "seating_plan (priv_aircraft f)")
  let ?sg = "priv_seating f"
  from inv p have ne: "?sg \<noteq> []" and len: "length (tl ?sg) = length rows"
    and ok: "list_all (row_ok letters) (tl ?sg)"
    by (simp_all add: flight_inv_def)
  from plan_rows_upto [of "priv_aircraft f"] p have "rows = [1..int (length rows)]" by simp
  with r p have "r \<in> set [1..int (length rows)]" by simp
  then have r1: "1 \<le> r" and r2: "r \<le> int (length rows)" by simp_all
  from r1 r2 len ne have lt: "nat r < length ?sg" by (cases ?sg) auto
  from r1 ne have nth: "?sg ! nat r = tl ?sg ! (nat r - 1)"
    by (cases ?sg) (auto simp: nth_Cons split: nat.splits)
  from r1 r2 len have "nat r - 1 < length (tl ?sg)" by auto
  with ok have "row_ok letters (tl ?sg ! (nat r - 1))" by (simp add: list_all_length)
  with nth obtain d where d: "?sg ! nat r = Some d" and keys: "map fst d = letters"
    by (auto simp: row_ok_def split: option.splits)
  from l p keys have "l \<in> fst ` set d" by (metis list.set_map snd_conv)
  then obtain v where "map_of d l = Some v"
    by (metis domD dom_map_of_conv_image_fst)
  with r1 lt d show ?thesis by (simp add: seat_get_nonneg dict_getitem_def)
qed

lemma flight_inv_parsed:
  "flight_inv f \<Longrightarrow> parse_seat f s = Inr (r, l) \<Longrightarrow> \<exists>v. seat_get (priv_seating f) r l = Inr v"
  using flight_inv_seat_get parse_seat_InrD(4,5) by blast

lemma flight_inv_seat_set:
  assumes inv: "flight_inv f" and r: "1 \<le> r" and g: "seat_get (priv_seating f) r l = Inr x"
    and s: "seat_set (priv_seating f) r l v = Inr sg'"
  shows "flight_inv (f\<lparr>priv_seating := sg'\<rparr>)"
proof -
  obtain rows letters where p: "seating_plan (priv_aircraft f) = (rows, letters)"
    by (cases "seating_plan (priv_aircraft f)")
  let ?sg = "priv_seating f"
  from inv p have ne: "?sg \<noteq> []" and hd: "hd ?sg = None" and len: "length (tl ?sg) = length rows"
    and ok: "list_all (row_ok letters) (tl ?sg)"
    by (simp_all add: flight_inv_def)
  from r g obtain d where lt: "nat r < length ?sg" and d: "?sg ! nat r = Some d"
    and m: "map_of d l = Some x"
    using seat_get_InrD [of r ?sg l x] by auto
  from r s lt d have sg': "sg' = ?sg[nat r := Some (AList.update l v d)]"
    by (simp add: seat_set_nonneg)
  obtain y ys where c: "?sg = y # ys" using ne by (cases ?sg) auto
  from r obtain k where k: "nat r = Suc k" by (cases "nat r") auto
  from m have "l \<in> fst ` set d" by (metis domI dom_map_of_conv_image_fst)
  then have keys: "map fst (AList.update l v d) = map fst d" by (simp add: update_keys)
  from c k lt d ok have "row_ok letters (Some d)" by (auto simp: list_all_length)
  with keys have rk: "row_ok letters (Some (AList.update l v d))" by (simp add: row_ok_def)
  from c k sg' have eq: "sg' = y # ys[k := Some (AList.update l v d)]" by simp
  from c k lt have kl: "k < length ys" by simp
  from ok c rk kl have "list_all (row_ok letters) (ys[k := Some (AList.update l v d)])"
    by (auto simp: list_all_length nth_list_update)
  with eq c hd len p show ?thesis by (simp add: flight_inv_def)
qed

lemma dict_from_plan_letters:
  "dict_from_keys (snd (seating_plan a)) v = map (\<lambda>k. (k, v)) (snd (seating_plan a))"
  by (cases a) (simp_all add: dict_from_keys_def dict_setitem_def)

lemma Flight_init_Inr:
  assumes "Flight_init n a = Inr f"
  shows "f = \<lparr>priv_number = n, priv_aircraft = a,
     priv_seating = None # map (\<lambda>_. Some (map (\<lambda>k. (k, None)) (snd (seating_plan a))))
       (fst (seating_plan a))\<rparr>"
proof -
  obtain rows letters where p: "seating_plan a = (rows, letters)" by (cases "seating_plan a")
  with dict_from_plan_letters [of a None]
  have "dict_from_keys letters None = map (\<lambda>k. (k, None)) letters" by simp
  with assms p show ?thesis
    by (auto simp: Flight_init_def split: if_splits option.splits)
qed

lemma Flight_init_inv: "Flight_init n a = Inr f \<Longrightarrow> flight_inv f"
  by (drule Flight_init_Inr)
    (simp add: flight_inv_def split_beta list_all_iff row_ok_def comp_def)

lemma allocate_seat_aircraft: "priv_aircraft (snd (allocate_seat f s p)) = priv_aircraft f"
  by (auto simp: allocate_seat_def split: sum.splits option.splits prod.splits)

lemma relocate_passenger_aircraft: "priv_aircraft (snd (relocate_passenger f a b)) = priv_aircraft f"
  by (auto simp: relocate_passenger_def split: sum.splits option.splits prod.splits)

lemma parse_seat_positive: "parse_seat f s = Inr (r, l) \<Longrightarrow> 1 \<le> r"
  using parse_seat_InrD(6) by force

lemma allocate_seat_inv:
  assumes "flight_inv f"
  shows "flight_inv (snd (allocate_seat f s p))"
proof (cases "allocate_seat f s p")
  case (Pair res f')
  show ?thesis
  proof (cases res)
    case (Inl e)
    with Pair assms show ?thesis by (auto dest: allocate_seat_failure_unchanged)
  next
    case (Inr u)
    with Pair obtain r l sg' where ps: "parse_seat f s = Inr (r, l)"
      and g: "seat_get (priv_seating f) r l = Inr None"
      and st: "seat_set (priv_seating f) r l (Some p) = Inr sg'"
      and f': "f' = f\<lparr>priv_seating := sg'\<rparr>"
      using allocate_seat_success by blast
    from flight_inv_seat_set [OF assms parse_seat_positive [OF ps] g st] f' Pair
    show ?thesis by simp
  qed
qed

lemma relocate_passenger_inv:
  assumes "flight_inv f"
  shows "flight_inv (snd (relocate_passenger f a b))"
proof (cases "relocate_passenger f a b")
  case (Pair res f')
  show ?thesis
  proof (cases res)
    case (Inl e)
    with Pair assms show ?thesis by (auto dest: relocate_passenger_failure_unchanged)
  next
    case (Inr u)
    with Pair obtain r1 l1 p r2 l2 sg1 sg2 where pa: "parse_seat f a = Inr (r1, l1)"
      and ga: "seat_get (priv_seating f) r1 l1 = Inr (Some p)"
      and pb: "parse_seat f b = Inr (r2, l2)"
      and gb: "seat_get (priv_seating f) r2 l2 = Inr None"
      and s1: "seat_set (priv_seating f) r2 l2 (Some p) = Inr sg1"
      and s2: "seat_set sg1 r1 l1 None = Inr sg2"
      and f': "f' = f\<lparr>priv_seating := sg2\<rparr>"
      using relocate_passenger_success by blast
    from ga gb have ne: "(r1, l1) \<noteq> (r2, l2)" by auto
    have i1: "flight_inv (f\<lparr>priv_seating := sg1\<rparr>)"
      using flight_inv_seat_set [OF assms parse_seat_positive [OF pb] gb s1] .
    have g1: "seat_get sg1 r1 l1 = Inr (Some p)"
      using seat_get_set_other [OF parse_seat_nonneg [OF pb] parse_seat_nonneg [OF pa] ne s1] ga
      by simp
    from flight_inv_seat_set [OF i1 parse_seat_positive [OF pa], of l1 "Some p" None sg2] g1 s2
    have "flight_inv (f\<lparr>priv_seating := sg2\<rparr>)" by simp
    with f' Pair show ?thesis by simp
  qed
qed

lemma reachable_inv: "reachable f \<Longrightarrow> flight_inv f"
  by (induction rule: reachable.induct)
    (auto intro: Flight_init_inv allocate_seat_inv relocate_passenger_inv)

lemma map_int_upt: "map int [1..<Suc m] = [1..int m]"
proof (induction m)
  case 0
  show ?case by simp
next
  case (Suc m)
  have "[1..int (Suc m)] = [1..int m] @ [int m + 1]"
    using upto_rec2 [of 1 "int (Suc m)"] by simp
  with Suc show ?case by simp
qed

lemma keys_of_rows:
  "list_all (row_ok letters) ys \<Longrightarrow>
   concat (map (\<lambda>(i, row). case row of None \<Rightarrow> [] | Some d \<Rightarrow> map (\<lambda>kv. (int i, fst kv)) d)
               (enumerate n ys))
   = List.product (map int [n..<n + length ys]) letters"
proof (induction ys arbitrary: n)
  case Nil
  show ?case by simp
next
  case (Cons y ys)
  from Cons.prems obtain d where y: "y = Some d" and d: "map fst d = letters"
    by (auto simp: row_ok_def split: option.splits)
  have "map (\<lambda>kv. (int n, fst kv)) d = map (Pair (int n)) (map fst d)" by simp
  with d have h: "map (\<lambda>kv. (int n, fst kv)) d = map (Pair (int n)) letters" by simp
  have u: "[n..<n + length (y # ys)] = n # [Suc n..<Suc n + length ys]"
    using upt_rec [of n "n + length (y # ys)"] by simp
  from Cons.prems have "list_all (row_ok letters) ys" by simp
  from Cons.IH [OF this, of "Suc n"] y h u show ?case by simp
qed

lemma flight_inv_keys:
  assumes "flight_inv f"
  shows "seating_keys (priv_seating f) = plan_seats f"
proof -
  obtain rows letters where p: "seating_plan (priv_aircraft f) = (rows, letters)"
    by (cases "seating_plan (priv_aircraft f)")
  from assms p obtain ys where sg: "priv_seating f = None # ys"
    and len: "length ys = length rows" and ok: "list_all (row_ok letters) ys"
    by (cases "priv_seating f") (auto simp: flight_inv_def)
  from plan_rows_upto [of "priv_aircraft f"] p have "rows = [1..int (length rows)]" by simp
  with map_int_upt [of "length rows"] len
  have rows: "map int [1..<1 + length ys] = rows" by simp
  from keys_of_rows [OF ok, of 1] rows sg p show ?thesis
    by (simp add: seating_keys_def plan_seats_def)
qed

lemma plan_rows_distinct: "distinct (fst (seating_plan a))"
  by (cases a) simp_all

lemma plan_seats_distinct: "distinct (plan_seats f)"
  using plan_rows_distinct [of "priv_aircraft f"] plan_letters_distinct [of "priv_aircraft f"]
  by (simp add: plan_seats_def split_beta distinct_product)

lemma plan_seats_set:
  "set (plan_seats f) =
     set (fst (seating_plan (priv_aircraft f))) \<times> set (snd (seating_plan (priv_aircraft f)))"
  by (simp add: plan_seats_def split_beta)

lemma Flight_init_empty:
  assumes "Flight_init n a = Inr f" and r: "r \<in> set (fst (seating_plan a))"
    and l: "l \<in> set (snd (seating_plan a))"
  shows "occupant f r l = Inr None"
proof -
  let ?d = "map (\<lambda>k. (k, None :: string option)) (snd (seating_plan a))"
  let ?rows = "fst (seating_plan a)"
  note f = Flight_init_Inr [OF assms(1)]
  from plan_rows_upto [of a] r have "r \<in> set [1..int (length ?rows)]" by simp
  then have r1: "1 \<le> r" and r2: "r \<le> int (length ?rows)" by simp_all
  then obtain k where k: "nat r = Suc k" and kl: "k < length ?rows"
    by (cases "nat r") auto
  from l have "map_of ?d l = Some None" by (simp add: map_of_map_restrict)
  with f r1 k kl show ?thesis
    by (simp add: occupant_def seat_get_nonneg dict_getitem_def)
qed

section \<open>Counting the empty seats\<close>

lemma num_seats_available_rows:
  "num_seats_available f = sum_list (map row_available (priv_seating f))"
proof -
  have "sum_list (map (\<lambda>row. int (length (filter (\<lambda>n. n = None) (map snd (the row)))))
                   (filter (\<lambda>row. row \<noteq> None) sg)) = sum_list (map row_available sg)" for sg
    by (induction sg) (auto simp: row_available_def)
  then show ?thesis by (simp add: num_seats_available_def)
qed

lemma sum_list_update_int:
  "k < length xs \<Longrightarrow> sum_list (xs[k := x]) = sum_list xs + x - (xs ! k :: int)"
  by (induction xs arbitrary: k) (auto split: nat.splits)

lemma count_None_update:
  "map_of d l = Some old \<Longrightarrow>
   int (length (filter (\<lambda>n. n = None) (map snd (AList.update l v d)))) =
   int (length (filter (\<lambda>n. n = None) (map snd d)))
     - (if old = None then 1 else 0) + (if v = None then 1 else 0)"
  by (induction d) (auto split: if_splits)

lemma seat_set_available:
  assumes r: "0 \<le> r" and g: "seat_get sg r l = Inr old" and s: "seat_set sg r l v = Inr sg'"
  shows "sum_list (map row_available sg') =
     sum_list (map row_available sg) - (if old = None then 1 else 0) + (if v = None then 1 else 0)"
proof -
  from r g obtain d where lt: "nat r < length sg" and d: "sg ! nat r = Some d"
    and m: "map_of d l = Some old"
    using seat_get_InrD [of r sg l old] by auto
  from r s lt d have sg': "sg' = sg[nat r := Some (AList.update l v d)]"
    by (simp add: seat_set_nonneg)
  have "sum_list (map row_available sg') =
      sum_list (map row_available sg) + row_available (Some (AList.update l v d))
        - row_available (sg ! nat r)"
    using lt by (simp add: sg' map_update sum_list_update_int)
  with d count_None_update [OF m, of v] show ?thesis by (simp add: row_available_def)
qed

lemma allocate_seat_available:
  assumes "allocate_seat f s p = (Inr u, f')"
  shows "num_seats_available f' = num_seats_available f - 1"
proof -
  from allocate_seat_success [OF assms] obtain r l sg' where ps: "parse_seat f s = Inr (r, l)"
    and g: "seat_get (priv_seating f) r l = Inr None"
    and st: "seat_set (priv_seating f) r l (Some p) = Inr sg'"
    and f': "f' = f\<lparr>priv_seating := sg'\<rparr>"
    by blast
  from seat_set_available [OF parse_seat_nonneg [OF ps] g st] f' show ?thesis
    by (simp add: num_seats_available_rows)
qed

lemma relocate_passenger_available:
  assumes "relocate_passenger f a b = (Inr u, f')"
  shows "num_seats_available f' = num_seats_available f"
proof -
  from relocate_passenger_success [OF assms]
  obtain r1 l1 p r2 l2 sg1 sg2 where pa: "parse_seat f a = Inr (r1, l1)"
    and ga: "seat_get (priv_seating f) r1 l1 = Inr (Some p)"
    and pb: "parse_seat f b = Inr (r2, l2)"
    and gb: "seat_get (priv_seating f) r2 l2 = Inr None"
    and s1: "seat_set (priv_seating f) r2 l2 (Some p) = Inr sg1"
    and s2: "seat_set sg1 r1 l1 None = Inr sg2"
    and f': "f' = f\<lparr>priv_seating := sg2\<rparr>"
    by blast
  from ga gb have ne: "(r1, l1) \<noteq> (r2, l2)" by auto
  have g1: "seat_get sg1 r1 l1 = Inr (Some p)"
    using seat_get_set_other [OF parse_seat_nonneg [OF pb] parse_seat_nonneg [OF pa] ne s1] ga
    by simp
  from seat_set_available [OF parse_seat_nonneg [OF pb] gb s1]
    seat_set_available [OF parse_seat_nonneg [OF pa] g1 s2] f'
  show ?thesis by (simp add: num_seats_available_rows)
qed

lemma length_filter_product:
  "int (length (filter P (List.product rows letters))) =
   sum_list (map (\<lambda>r. int (length (filter (\<lambda>l. P (r, l)) letters))) rows)"
  by (induction rows) (simp_all add: filter_map comp_def)

lemma count_None_keys:
  "distinct (map fst d) \<Longrightarrow>
   length (filter (\<lambda>l. map_of d l = Some None) (map fst d)) =
   length (filter (\<lambda>n. n = None) (map snd d))"
proof (induction d)
  case Nil
  show ?case by simp
next
  case (Cons kv d)
  obtain k v where kv: "kv = (k, v)" by (cases kv)
  from Cons.prems kv have k: "k \<notin> set (map fst d)" and dd: "distinct (map fst d)" by simp_all
  from k have "filter (\<lambda>l. map_of (kv # d) l = Some None) (map fst d) =
      filter (\<lambda>l. map_of d l = Some None) (map fst d)"
    by (intro filter_cong) (auto simp: kv)
  with Cons.IH [OF dd] show ?case by (simp add: kv)
qed

lemma flight_inv_available:
  assumes inv: "flight_inv f"
  shows "num_seats_available f =
     int (length (filter (\<lambda>(r, l). occupant f r l = Inr None) (plan_seats f)))"
proof -
  obtain rows letters where p: "seating_plan (priv_aircraft f) = (rows, letters)"
    by (cases "seating_plan (priv_aircraft f)")
  from inv p obtain ys where sg: "priv_seating f = None # ys"
    and len: "length ys = length rows" and ok: "list_all (row_ok letters) ys"
    by (cases "priv_seating f") (auto simp: flight_inv_def)
  from plan_rows_upto [of "priv_aircraft f"] p have "rows = [1..int (length rows)]" by simp
  with map_int_upt [of "length rows"] len
  have rows: "rows = map int [1..<Suc (length ys)]" by simp
  from plan_letters_distinct [of "priv_aircraft f"] p have dl: "distinct letters" by simp
  have row: "int (length (filter (\<lambda>l. occupant f (int i) l = Inr None) letters)) =
      row_available ((None # ys) ! i)" if "1 \<le> i" and "i \<le> length ys" for i
  proof -
    from that obtain k where i: "i = Suc k" and k: "k < length ys" by (cases i) auto
    from ok k have "row_ok letters (ys ! k)" by (simp add: list_all_length)
    then obtain d where d: "ys ! k = Some d" and keys: "map fst d = letters"
      by (auto simp: row_ok_def split: option.splits)
    have n: "nat (1 + int k) = Suc k" by simp
    have "occupant f (int i) l = Inr None \<longleftrightarrow> map_of d l = Some None" for l
      using i k d sg by (auto simp: occupant_def seat_get_nonneg dict_getitem_def n split: option.splits)
    then have "length (filter (\<lambda>l. occupant f (int i) l = Inr None) letters) =
        length (filter (\<lambda>l. map_of d l = Some None) (map fst d))"
      by (simp add: keys)
    also have "\<dots> = length (filter (\<lambda>n. n = None) (map snd d))"
      using dl keys by (intro count_None_keys) simp
    finally show ?thesis using i d by (simp add: row_available_def)
  qed
  have "int (length (filter (\<lambda>(r, l). occupant f r l = Inr None) (plan_seats f))) =
      sum_list (map (\<lambda>r. int (length (filter (\<lambda>l. occupant f r l = Inr None) letters))) rows)"
    using length_filter_product [of "\<lambda>(r, l). occupant f r l = Inr None" rows letters] p
    by (simp add: plan_seats_def)
  also have "\<dots> = sum_list (map (\<lambda>i. int (length (filter (\<lambda>l. occupant f (int i) l = Inr None) letters)))
      [1..<Suc (length ys)])"
    by (simp add: rows comp_def)
  also have "\<dots> = sum_list (map (\<lambda>i. row_available ((None # ys) ! i)) [1..<Suc (length ys)])"
  proof (rule arg_cong [where f = sum_list], rule map_cong [OF refl])
    fix i assume "i \<in> set [1..<Suc (length ys)]"
    then have "1 \<le> i" and "i \<le> length ys" by (simp_all del: upt_Suc)
    then show "int (length (filter (\<lambda>l. occupant f (int i) l = Inr None) letters)) =
        row_available ((None # ys) ! i)" by (rule row)
  qed
  also have "\<dots> = sum_list (map row_available (map (\<lambda>i. ys ! i) [0..<length ys]))"
    using map_Suc_upt [of 0 "length ys"]
    by (simp add: comp_def del: upt_Suc flip: map_Suc_upt)
  also have "\<dots> = sum_list (map row_available ys)" by (simp add: map_nth)
  finally show ?thesis by (simp add: num_seats_available_rows sg row_available_def)
qed

lemma Flight_init_available:
  assumes "Flight_init n a = Inr f"
  shows "num_seats_available f = num_seats a"
proof -
  have "sum_list (map row_available (map (\<lambda>_. Some (map (\<lambda>k. (k, None)) letters)) rows)) =
      int (length rows) * int (length letters)" for rows :: "int list" and letters :: string
    by (induction rows) (simp_all add: row_available_def comp_def algebra_simps)
  with Flight_init_Inr [OF assms] show ?thesis
    by (simp add: num_seats_available_rows num_seats_def split_beta row_available_def)
qed

lemma py_int_1: "py_int ''1'' = Some 1" by code_simp

lemma parse_seat_A319_1C:
  "priv_aircraft f = AirbusA319 reg \<Longrightarrow> parse_seat f ''1C'' = Inr (1, CHR ''C'')"
  by (simp add: parse_seat_def py_int_1)

lemma parse_seat_A319_1D:
  "priv_aircraft f = AirbusA319 reg \<Longrightarrow> parse_seat f ''1D'' = Inr (1, CHR ''D'')"
  by (simp add: parse_seat_def py_int_1)

lemma A319_two_allocations:
  assumes i: "Flight_init n (AirbusA319 reg) = Inr f0"
  shows "num_seats (AirbusA319 reg) = 132 \<and> num_seats_available f0 = 132 \<and>
     (\<exists>f1 f2. allocate_seat f0 ''1C'' p1 = (Inr (), f1) \<and>
        allocate_seat f1 ''1D'' p2 = (Inr (), f2) \<and> num_seats_available f2 = 130)"
proof -
  have ns: "num_seats (AirbusA319 reg) = 132" by (simp add: num_seats_def)
  from Flight_init_available [OF i] ns have n0: "num_seats_available f0 = 132" by simp
  from Flight_init_Inr [OF i] have a0: "priv_aircraft f0 = AirbusA319 reg" by simp
  have e1: "occupant f0 1 (CHR ''C'') = Inr None" by (rule Flight_init_empty [OF i]) simp_all
  have e2: "occupant f0 1 (CHR ''D'') = Inr None" by (rule Flight_init_empty [OF i]) simp_all
  from allocate_seat_effect [OF parse_seat_A319_1C [OF a0] e1, of p1]
  obtain f1 where al1: "allocate_seat f0 ''1C'' p1 = (Inr (), f1)"
    and fr: "\<forall>r' l'. 0 \<le> r' \<and> (r', l') \<noteq> (1, CHR ''C'') \<longrightarrow> occupant f1 r' l' = occupant f0 r' l'"
    and a1: "priv_aircraft f1 = priv_aircraft f0"
    by (elim exE conjE)
  from fr e2 have e2': "occupant f1 1 (CHR ''D'') = Inr None" by simp
  from a1 a0 have "priv_aircraft f1 = AirbusA319 reg" by simp
  from allocate_seat_effect [OF parse_seat_A319_1D [OF this] e2', of p2]
  obtain f2 where al2: "allocate_seat f1 ''1D'' p2 = (Inr (), f2)" by (elim exE conjE)
  from allocate_seat_available [OF al1] allocate_seat_available [OF al2] n0
  have "num_seats_available f2 = 130" by simp
  with ns n0 al1 al2 show ?thesis by (intro conjI exI)
qed


section \<open>Boarding cards\<close>

lemma row_passenger_seats_Inr:
  "(\<And>l. l \<in> set letters \<Longrightarrow> \<exists>v. seat_get sg r l = Inr v) \<Longrightarrow>
   row_passenger_seats sg r letters =
     Inr (concat (map (\<lambda>l. case seat_get sg r l of Inr (Some p) \<Rightarrow> [(p, str_int r @ [l])] | _ \<Rightarrow> [])
                      letters))"
proof (induction letters)
  case Nil
  show ?case by simp
next
  case (Cons l letters)
  from Cons.prems [of l] obtain v where v: "seat_get sg r l = Inr v" by auto
  from Cons.IH Cons.prems
  have "row_passenger_seats sg r letters =
     Inr (concat (map (\<lambda>l. case seat_get sg r l of Inr (Some p) \<Rightarrow> [(p, str_int r @ [l])] | _ \<Rightarrow> [])
                      letters))" by simp
  with v show ?case by (cases v) simp_all
qed

lemma rows_passenger_seats_Inr:
  "(\<And>r l. r \<in> set rows \<Longrightarrow> l \<in> set letters \<Longrightarrow> \<exists>v. seat_get sg r l = Inr v) \<Longrightarrow>
   rows_passenger_seats sg rows letters =
     Inr (concat (map (\<lambda>(r, l). case seat_get sg r l of Inr (Some p) \<Rightarrow> [(p, str_int r @ [l])] | _ \<Rightarrow> [])
                      (List.product rows letters)))"
proof (induction rows)
  case Nil
  show ?case by simp
next
  case (Cons r rows)
  have here: "row_passenger_seats sg r letters =
     Inr (concat (map (\<lambda>l. case seat_get sg r l of Inr (Some p) \<Rightarrow> [(p, str_int r @ [l])] | _ \<Rightarrow> [])
                      letters))"
    by (rule row_passenger_seats_Inr) (simp add: Cons.prems)
  from Cons.IH Cons.prems
  have "rows_passenger_seats sg rows letters =
     Inr (concat (map (\<lambda>(r, l). case seat_get sg r l of Inr (Some p) \<Rightarrow> [(p, str_int r @ [l])] | _ \<Rightarrow> [])
                      (List.product rows letters)))" by simp
  with here show ?case by (simp add: comp_def)
qed

lemma flight_inv_passenger_seats:
  assumes "flight_inv f"
  shows "passenger_seats f = Inr (occupied_pairs f)"
proof -
  obtain rows letters where p: "seating_plan (priv_aircraft f) = (rows, letters)"
    by (cases "seating_plan (priv_aircraft f)")
  have "rows_passenger_seats (priv_seating f) rows letters =
     Inr (concat (map (\<lambda>(r, l). case seat_get (priv_seating f) r l of
                           Inr (Some p) \<Rightarrow> [(p, str_int r @ [l])] | _ \<Rightarrow> [])
                      (List.product rows letters)))"
    by (rule rows_passenger_seats_Inr) (use flight_inv_seat_get [OF assms] p in simp)
  with p show ?thesis
    by (simp add: passenger_seats_def occupied_pairs_def plan_seats_def occupant_def)
qed

lemma fold_recording_printer:
  "fold (\<lambda>(p, s). recording_printer p s n m) ps calls = calls @ map (\<lambda>(p, s). (p, s, n, m)) ps"
  by (induction ps arbitrary: calls) (auto simp: recording_printer_def)

lemma sorted_before:
  assumes "sorted xs" and "a \<in> set xs" and "b \<in> set xs" and "a < (b :: 'a :: linorder)"
  shows "\<exists>us vs ws. xs = us @ [a] @ vs @ [b] @ ws"
proof -
  from assms(2) obtain us rest where xs: "xs = us @ a # rest" by (auto dest: split_list)
  from assms(4) have ne: "b \<noteq> a" by auto
  have "b \<notin> set us"
  proof
    assume "b \<in> set us"
    with assms(1) xs have "b \<le> a" by (auto simp: sorted_append)
    with assms(4) show False by simp
  qed
  with assms(3) xs ne have "b \<in> set rest" by auto
  then obtain vs ws where "rest = vs @ b # ws" by (auto dest: split_list)
  with xs show ?thesis by auto
qed

lemma occupied_pairs_length:
  "length (occupied_pairs f) =
   length (filter (\<lambda>(r, l). case occupant f r l of Inr (Some p) \<Rightarrow> True | _ \<Rightarrow> False) (plan_seats f))"
proof -
  have "length (concat (map (\<lambda>(r, l). case occupant f r l of
            Inr (Some p) \<Rightarrow> [(p, str_int r @ [l])] | _ \<Rightarrow> []) xs)) =
      length (filter (\<lambda>(r, l). case occupant f r l of Inr (Some p) \<Rightarrow> True | _ \<Rightarrow> False) xs)"
    for xs
    by (induction xs) (auto split: sum.splits option.splits)
  then show ?thesis by (simp add: occupied_pairs_def)
qed

lemma lex_order_pairs:
  "((\<le>) :: string \<times> string \<Rightarrow> string \<times> string \<Rightarrow> bool) =
     (\<lambda>(p1, s1) (p2, s2). p1 < p2 \<or> (p1 = p2 \<and> s1 \<le> s2))"
  by (auto simp: fun_eq_iff less_eq_prod_def)

lemma A319_two_cards:
  assumes "Flight_init n (AirbusA319 reg) = Inr f0"
    and seats: "s1 = ''2A'' \<and> s2 = ''1A'' \<or> s1 = ''1A'' \<and> s2 = ''2A''"
  shows "\<exists>f1 f2. allocate_seat f0 s1 ''Bob'' = (Inr (), f1) \<and>
           allocate_seat f1 s2 ''Alice'' = (Inr (), f2) \<and>
           make_boarding_cards f2 recording_printer [] =
             (Inr (), [(''Alice'', s2, n, ''Airbus A319''), (''Bob'', s1, n, ''Airbus A319'')])"
proof -
  let ?f1 = "snd (allocate_seat f0 s1 ''Bob'')"
  let ?f2 = "snd (allocate_seat ?f1 s2 ''Alice'')"
  have "allocate_seat f0 s1 ''Bob'' = (Inr (), ?f1) \<and>
      allocate_seat ?f1 s2 ''Alice'' = (Inr (), ?f2) \<and>
      make_boarding_cards ?f2 recording_printer [] =
        (Inr (), [(''Alice'', s2, n, ''Airbus A319''), (''Bob'', s1, n, ''Airbus A319'')])"
    using seats unfolding Flight_init_Inr [OF assms(1)] by (elim disjE conjE; hypsubst; code_simp)
  then show ?thesis by blast
qed


section \<open>Flight numbers and seat designators\<close>

lemma alpha_not_lower_upper: "char_isalpha c \<Longrightarrow> \<not> char_islower c \<Longrightarrow> char_isupper c"
  unfolding char_isalpha_def char_islower_def char_isupper_def in_range_def by arith

lemma upper_not_lower: "char_isupper c \<Longrightarrow> \<not> char_islower c"
  unfolding char_islower_def char_isupper_def in_range_def by arith

lemma airline_code_checks:
  "isalpha [a, b] \<and> isupper [a, b] \<longleftrightarrow> uppercase_letter a \<and> uppercase_letter b"
  using alpha_not_lower_upper [of a] alpha_not_lower_upper [of b] upper_not_lower [of a]
    upper_not_lower [of b]
  by (auto simp: isalpha_def isupper_def uppercase_letter_def)

lemma decimal_isdigit: "char_isdecimal c \<Longrightarrow> char_isdigit c"
  by (simp add: char_isdecimal_def char_isdigit_def)

lemma isdigit_not_space: "char_isdigit c \<Longrightarrow> \<not> char_isspace c"
  unfolding char_isdigit_def char_isspace_def in_range_def by arith

lemma isdigit_not_sign: "char_isdigit c \<Longrightarrow> c \<noteq> CHR ''-'' \<and> c \<noteq> CHR ''+'' \<and> c \<noteq> CHR ''_''"
  unfolding char_isdigit_def in_range_def by auto

lemma int_digits_after_digit:
  "list_all char_isdecimal s \<Longrightarrow>
   int_digits True acc s = Some (foldl (\<lambda>a c. 10 * a + digit_value c) acc s)"
  by (induction s arbitrary: acc) simp_all

lemma int_digits_decimal:
  "list_all char_isdecimal s \<Longrightarrow> s \<noteq> [] \<Longrightarrow>
   int_digits prev acc s = Some (foldl (\<lambda>a c. 10 * a + digit_value c) acc s)"
  by (cases s) (simp_all add: int_digits_after_digit)

lemma int_digits_isdigit:
  "list_all char_isdigit s \<Longrightarrow> int_digits prev acc s = Some v \<Longrightarrow> list_all char_isdecimal s"
proof (induction s arbitrary: prev acc)
  case Nil
  show ?case by simp
next
  case (Cons c s)
  from Cons.prems(1) have "c \<noteq> CHR ''_''" using isdigit_not_sign by simp
  with Cons show ?case by (auto split: if_splits)
qed

lemma strip_isdigit:
  assumes "list_all char_isdigit s"
  shows "strip s = s"
proof (cases s)
  case Nil
  then show ?thesis by (simp add: strip_def)
next
  case (Cons c cs)
  with assms have "\<not> char_isspace (hd s)" by (simp add: isdigit_not_space)
  with Cons have d: "dropWhile char_isspace s = s" by simp
  from Cons have ne: "s \<noteq> []" by simp
  with assms have "\<not> char_isspace (last s)"
    by (simp add: isdigit_not_space list_all_iff)
  with ne have "dropWhile char_isspace (rev s) = rev s"
    by (cases "rev s") (auto simp: hd_rev [symmetric] simp del: hd_rev)
  with d show ?thesis by (simp add: strip_def)
qed

lemma py_int_isdigit:
  assumes "isdigit s"
  shows "py_int s =
     (if list_all char_isdecimal s \<and> length s \<le> int_max_str_digits
      then Some (decimal_value s) else None)"
proof -
  from assms obtain c cs where s: "s = c # cs" and all: "list_all char_isdigit s"
    by (cases s) (auto simp: isdigit_def)
  from all s have c: "c \<noteq> CHR ''-''" "c \<noteq> CHR ''+''" using isdigit_not_sign [of c] by simp_all
  from strip_isdigit [OF all] s c have p: "py_int s = int_literal s"
    by (simp add: py_int_def)
  show ?thesis
  proof (cases "list_all char_isdecimal s")
    case True
    then have "filter char_isdecimal s = s" by (simp add: list_all_iff)
    with True int_digits_decimal [of s False 0] s p show ?thesis
      by (simp add: decimal_value_def int_literal_def)
  next
    case False
    have "int_digits False 0 s = None"
    proof (cases "int_digits False 0 s")
      case None
      then show ?thesis .
    next
      case (Some v)
      from int_digits_isdigit [OF all Some] False show ?thesis by simp
    qed
    with p False show ?thesis by (simp add: int_literal_def)
  qed
qed

lemma Flight_init_valid:
  assumes "valid_flight_number n"
  shows "\<exists>f. Flight_init n a = Inr f \<and> number f = n \<and> airline f = take 2 n \<and> priv_aircraft f = a"
proof -
  from assms obtain x y where t: "take 2 n = [x, y]"
    and u: "uppercase_letter x" "uppercase_letter y"
    and ne: "drop 2 n \<noteq> []" and dec: "list_all char_isdecimal (drop 2 n)"
    and lim: "length (drop 2 n) \<le> int_max_str_digits"
    and le: "decimal_value (drop 2 n) \<le> 9999"
    by (cases "take 2 n"; cases "tl (take 2 n)") (auto simp: valid_flight_number_def)
  from u airline_code_checks [of x y] have ac: "isalpha [x, y]" "isupper [x, y]" by simp_all
  from ne dec have dg: "isdigit (drop 2 n)"
    by (simp add: isdigit_def list_all_iff decimal_isdigit)
  from py_int_isdigit [OF dg] dec lim
  have "py_int (drop 2 n) = Some (decimal_value (drop 2 n))" by simp
  with t ac dg le show ?thesis
    by (simp add: Flight_init_def number_def airline_def split_beta)
qed

lemma Flight_init_invalid:
  assumes "\<not> valid_flight_number n"
  shows "Flight_init n a = Inl (ValueError NoAirlineCode) \<or>
     Flight_init n a = Inl (ValueError InvalidAirlineCode) \<or>
     Flight_init n a = Inl (ValueError InvalidRouteNumber) \<or>
     Flight_init n a = Inl (ValueError InvalidLiteral)"
proof (rule ccontr)
  assume c: "\<not> ?thesis"
  then have al: "isalpha (take 2 n)" and up: "isupper (take 2 n)" and dg: "isdigit (drop 2 n)"
    by (auto simp: Flight_init_def split: if_splits)
  from c al up dg obtain v where v: "py_int (drop 2 n) = Some v" and le: "v \<le> 9999"
    by (auto simp: Flight_init_def split: if_splits option.splits)
  from py_int_isdigit [OF dg] v have dec: "list_all char_isdecimal (drop 2 n)"
    and lim: "length (drop 2 n) \<le> int_max_str_digits"
    and val: "v = decimal_value (drop 2 n)" by (auto split: if_splits)
  from dg have ne: "drop 2 n \<noteq> []" by (simp add: isdigit_def)
  then have "2 < length n" by simp
  then obtain x y where t: "take 2 n = [x, y]"
    by (cases n; cases "tl n") auto
  from al up t airline_code_checks [of x y] have "uppercase_letter x \<and> uppercase_letter y" by simp
  with t ne dec lim val le have "valid_flight_number n" by (simp add: valid_flight_number_def)
  with assms show False by simp
qed

lemma zeros_and_one:
  "list_all char_isdecimal (replicate k (CHR ''0'') @ ''1'') \<and>
   decimal_value (replicate k (CHR ''0'') @ ''1'') = 1 \<and>
   length (replicate k (CHR ''0'') @ ''1'') = Suc k"
proof -
  have z: "foldl (\<lambda>a c. 10 * a + digit_value c) 0 (replicate k (CHR ''0'')) = 0"
    by (induction k) (simp_all add: digit_value_def)
  have d: "char_isdecimal (CHR ''0'')" "char_isdecimal (CHR ''1'')"
    by (simp_all add: char_isdecimal_def in_range_def)
  from z d show ?thesis by (simp add: decimal_value_def list_all_iff digit_value_def)
qed

lemma valid_flight_number_zeros:
  "valid_flight_number (''AB'' @ replicate k (CHR ''0'') @ ''1'') \<longleftrightarrow> k < int_max_str_digits"
proof -
  have u: "uppercase_letter (CHR ''A'')" "uppercase_letter (CHR ''B'')"
    by (simp_all add: uppercase_letter_def char_isalpha_def char_isupper_def in_range_def)
  from zeros_and_one [of k] u show ?thesis
    by (auto simp: valid_flight_number_def)
qed

lemma Flight_init_zeros_refused:
  assumes "int_max_str_digits \<le> k"
  shows "Flight_init (''AB'' @ replicate k (CHR ''0'') @ ''1'') a = Inl (ValueError InvalidLiteral)"
proof -
  let ?d = "replicate k (CHR ''0'') @ ''1''"
  have al: "isalpha ''AB''" and up: "isupper ''AB''"
    by (simp_all add: isalpha_def isupper_def char_isalpha_def char_isupper_def char_islower_def
        in_range_def)
  from zeros_and_one [of k] have "list_all char_isdecimal ?d" by (rule conjunct1)
  then have dg: "isdigit ?d"
    by (auto simp: isdigit_def list_all_iff intro: decimal_isdigit)
  from py_int_isdigit [OF dg] zeros_and_one [of k] assms have "py_int ?d = None" by simp
  with al up dg show ?thesis by (simp add: Flight_init_def)
qed

lemma digit_char_decimal:
  assumes "d < 10"
  shows "char_isdecimal (digit_char d) \<and> digit_value (digit_char d) = int d"
proof -
  from assms have "d = 0 \<or> d = 1 \<or> d = 2 \<or> d = 3 \<or> d = 4 \<or> d = 5 \<or> d = 6 \<or> d = 7 \<or> d = 8 \<or> d = 9"
    by arith
  then show ?thesis
    by (elim disjE) (simp_all add: digit_char_def char_isdecimal_def in_range_def digit_value_def)
qed

lemma str_nat_decimal:
  "list_all char_isdecimal (str_nat n) \<and> str_nat n \<noteq> [] \<and> decimal_value (str_nat n) = int n"
proof (induction n rule: str_nat.induct)
  case (1 n)
  show ?case
  proof (cases "n < 10")
    case True
    with digit_char_decimal [of n] show ?thesis
      by (simp add: str_nat.simps [of n] decimal_value_def)
  next
    case False
    have "n mod 10 < 10" by simp
    moreover have "10 * int (n div 10) + int (n mod 10) = int n"
      by (simp add: zdiv_int zmod_int)
    ultimately show ?thesis
      using digit_char_decimal [of "n mod 10"] 1 [OF False] False
      by (simp add: str_nat.simps [of n] decimal_value_def)
  qed
qed

lemma str_nat_short:
  assumes "n < 100"
  shows "length (str_nat n) \<le> 2"
proof (cases "n < 10")
  case True
  then show ?thesis by (subst str_nat.simps) simp
next
  case False
  from assms have "n div 10 < 10" by simp
  then have "str_nat (n div 10) = [digit_char (n div 10)]" by (subst str_nat.simps) simp
  with False show ?thesis by (subst str_nat.simps) simp
qed

lemma py_int_str_int: "0 \<le> r \<Longrightarrow> r < 100 \<Longrightarrow> py_int (str_int r) = Some r"
proof -
  assume r: "0 \<le> r" and small: "r < 100"
  from str_nat_decimal [of "nat r"] have "isdigit (str_nat (nat r))"
    by (simp add: isdigit_def list_all_iff decimal_isdigit)
  moreover from small r have "nat r < 100" by simp
  from str_nat_short [OF this]
  have "length (str_nat (nat r)) \<le> int_max_str_digits" by (simp add: int_max_str_digits_def)
  ultimately show ?thesis
    using py_int_isdigit [of "str_nat (nat r)"] str_nat_decimal [of "nat r"] r
    by (simp add: str_int_def)
qed

lemma plan_rows_small: "r \<in> set (fst (seating_plan a)) \<Longrightarrow> r < 100"
  by (cases a) auto

lemma parse_seat_designator:
  assumes "seating_plan (priv_aircraft f) = (rows, letters)" and "row \<in> set rows"
    and "letter \<in> set letters"
  shows "parse_seat f (str_int row @ [letter]) = Inr (row, letter)"
proof -
  from assms(1,2) plan_rows_positive [of row "priv_aircraft f"] have "0 \<le> row" by simp
  moreover from assms(1,2) plan_rows_small [of row "priv_aircraft f"] have "row < 100" by simp
  ultimately have "py_int (str_int row) = Some row" by (rule py_int_str_int)
  with assms show ?thesis by (simp add: parse_seat_def)
qed


text \<open>No seat designator is on two boarding cards.\<close>

lemma occupied_pairs_seats:
  "map snd (occupied_pairs f) =
   map (\<lambda>(r, l). str_int r @ [l])
     (filter (\<lambda>(r, l). case occupant f r l of Inr (Some p) \<Rightarrow> True | _ \<Rightarrow> False) (plan_seats f))"
proof -
  have "map snd (concat (map (\<lambda>(r, l). case occupant f r l of
            Inr (Some p) \<Rightarrow> [(p, str_int r @ [l])] | _ \<Rightarrow> []) xs)) =
      map (\<lambda>(r, l). str_int r @ [l])
        (filter (\<lambda>(r, l). case occupant f r l of Inr (Some p) \<Rightarrow> True | _ \<Rightarrow> False) xs)"
    for xs
    by (induction xs) (auto split: sum.splits option.splits)
  then show ?thesis by (simp add: occupied_pairs_def)
qed

lemma designator_inj: "inj_on (\<lambda>(r, l). str_int r @ [l]) (set (plan_seats f))"
proof (rule inj_onI)
  fix x y assume x: "x \<in> set (plan_seats f)" and y: "y \<in> set (plan_seats f)"
    and eq: "(case x of (r, l) \<Rightarrow> str_int r @ [l]) = (case y of (r, l) \<Rightarrow> str_int r @ [l])"
  obtain rows letters where p: "seating_plan (priv_aircraft f) = (rows, letters)"
    by (cases "seating_plan (priv_aircraft f)")
  obtain r l r' l' where xy: "x = (r, l)" "y = (r', l')" by (cases x; cases y)
  from x y p xy have m: "r \<in> set rows" "l \<in> set letters" "r' \<in> set rows" "l' \<in> set letters"
    by (simp_all add: plan_seats_def)
  from eq have e: "str_int r @ [l] = str_int r' @ [l']" unfolding xy by (simp only: prod.case)
  have "(Inr (r, l) :: error + int \<times> char) = parse_seat f (str_int r @ [l])"
    using p m(1,2) by (rule parse_seat_designator [symmetric])
  also have "\<dots> = parse_seat f (str_int r' @ [l'])" by (simp only: e)
  also have "\<dots> = Inr (r', l')" using p m(3,4) by (rule parse_seat_designator)
  finally have "(r, l) = (r', l')" by (simp only: sum.inject)
  then show "x = y" unfolding xy .
qed

lemma occupied_pairs_distinct: "distinct (map snd (occupied_pairs f))"
  unfolding occupied_pairs_seats
  by (rule distinct_map [THEN iffD2])
    (auto simp: plan_seats_distinct intro: inj_on_subset [OF designator_inj])

lemma sort_seats_distinct: "distinct (map snd (sort (occupied_pairs f)))"
proof -
  have "mset (map snd (sort (occupied_pairs f))) = mset (map snd (occupied_pairs f))" by simp
  from mset_eq_imp_distinct_iff [OF this] occupied_pairs_distinct [of f] show ?thesis by simp
qed

section \<open>The sample flight\<close>

lemma flight_f_inv: "flight_inv flight_f" by code_simp
lemma flight_f_aircraft: "priv_aircraft flight_f = AirbusA319 ''G-BGT2''" by code_simp
lemma flight_f_parse_1C: "parse_seat flight_f ''1C'' = Inr (1, CHR ''C'')" by code_simp
lemma flight_f_parse_1D: "parse_seat flight_f ''1D'' = Inr (1, CHR ''D'')" by code_simp
lemma flight_f_parse_2C: "parse_seat flight_f ''2C'' = Inr (2, CHR ''C'')" by code_simp
lemma flight_f_parse_99Z: "parse_seat flight_f ''99Z'' = Inl (ValueError InvalidSeatLetter)" by code_simp
lemma flight_f_parse_23C: "parse_seat flight_f ''23C'' = Inl (ValueError InvalidRowNumber)" by code_simp
lemma flight_f_occupant_1C: "occupant flight_f 1 (CHR ''C'') = Inr (Some ''Tim Cathy'')" by code_simp
lemma flight_f_occupant_1D: "occupant flight_f 1 (CHR ''D'') = Inr (Some ''John Bushman'')" by code_simp
lemma flight_f_occupant_2C: "occupant flight_f 2 (CHR ''C'') = Inr None" by code_simp


lemma flight_f_reachable: "reachable flight_f"
proof -
  let ?f0 = "projr (Flight_init ''AB221'' (AirbusA319 ''G-BGT2''))"
  have "Flight_init ''AB221'' (AirbusA319 ''G-BGT2'') = Inr ?f0" by code_simp
  then have "reachable ?f0" by (rule reachable.constructed)
  then have "reachable (snd (allocate_seat (snd (allocate_seat (snd (allocate_seat (snd
      (allocate_seat (snd (allocate_seat ?f0 ''12A'' ''Rahul'')) ''15F'' ''Dinesh Mathur''))
      ''15E'' ''Christopher Philips'')) ''1C'' ''Tim Cathy'')) ''1D'' ''John Bushman''))"
    by (intro reachable.allocated)
  moreover have "flight_f = snd (allocate_seat (snd (allocate_seat (snd (allocate_seat (snd
      (allocate_seat (snd (allocate_seat ?f0 ''12A'' ''Rahul'')) ''15F'' ''Dinesh Mathur''))
      ''15E'' ''Christopher Philips'')) ''1C'' ''Tim Cathy'')) ''1D'' ''John Bushman'')"
    by code_simp
  ultimately show ?thesis by simp
qed


section \<open>The claims\<close>

text \<open>
  C1. \<open>relocate_passenger\<close> checks in this order, and raises at the first check that
  fails, leaving the flight as it was: \<open>from_seat\<close> is parsed (the exception of
  \<open>parse_seat\<close>); its seat has an occupant (else the \<open>ValueError\<close> of line 86, the
  specification's \<open>EmptySeat\<close>); \<open>to_seat\<close> is parsed; its seat is empty (else the
  \<open>ValueError\<close> of line 90, \<open>SeatTaken\<close>). When all four pass, the call succeeds: the
  occupant is at \<open>to_seat\<close>, \<open>from_seat\<close> is empty and every other seat, the number and
  the aircraft are as before. Whenever the call raises, the flight is unchanged. On a
  well-formed flight a seat that parses always has an occupant or is empty (reading it
  never raises), so these cases are all there are.
\<close>

theorem relocate_passenger_spec:
  "(\<forall>e. parse_seat f a = Inl e \<longrightarrow> relocate_passenger f a b = (Inl e, f)) \<and>
   (\<forall>r1 l1. parse_seat f a = Inr (r1, l1) \<and> occupant f r1 l1 = Inr None \<longrightarrow>
      relocate_passenger f a b = (Inl (ValueError NoPassengerToRelocate), f)) \<and>
   (\<forall>r1 l1 p e. parse_seat f a = Inr (r1, l1) \<and> occupant f r1 l1 = Inr (Some p) \<and>
      parse_seat f b = Inl e \<longrightarrow> relocate_passenger f a b = (Inl e, f)) \<and>
   (\<forall>r1 l1 p r2 l2 q. parse_seat f a = Inr (r1, l1) \<and> occupant f r1 l1 = Inr (Some p) \<and>
      parse_seat f b = Inr (r2, l2) \<and> occupant f r2 l2 = Inr (Some q) \<longrightarrow>
      relocate_passenger f a b = (Inl (ValueError SeatOccupied), f)) \<and>
   (\<forall>r1 l1 p r2 l2. parse_seat f a = Inr (r1, l1) \<and> occupant f r1 l1 = Inr (Some p) \<and>
      parse_seat f b = Inr (r2, l2) \<and> occupant f r2 l2 = Inr None \<longrightarrow>
      (\<exists>f'. relocate_passenger f a b = (Inr (), f') \<and>
         occupant f' r2 l2 = Inr (Some p) \<and> occupant f' r1 l1 = Inr None \<and>
         (\<forall>r l. 0 \<le> r \<and> (r, l) \<noteq> (r1, l1) \<and> (r, l) \<noteq> (r2, l2) \<longrightarrow>
            occupant f' r l = occupant f r l) \<and>
         priv_number f' = priv_number f \<and> priv_aircraft f' = priv_aircraft f)) \<and>
   (\<forall>e f'. relocate_passenger f a b = (Inl e, f') \<longrightarrow> f' = f) \<and>
   (flight_inv f \<longrightarrow> (\<forall>s r l. parse_seat f s = Inr (r, l) \<longrightarrow> (\<exists>v. occupant f r l = Inr v)))"
proof (intro conjI allI impI)
  fix e assume "parse_seat f a = Inl e"
  then show "relocate_passenger f a b = (Inl e, f)" by (simp add: relocate_passenger_def)
next
  fix r1 l1 assume "parse_seat f a = Inr (r1, l1) \<and> occupant f r1 l1 = Inr None"
  then show "relocate_passenger f a b = (Inl (ValueError NoPassengerToRelocate), f)"
    by (simp add: relocate_passenger_def occupant_def)
next
  fix r1 l1 p e
  assume "parse_seat f a = Inr (r1, l1) \<and> occupant f r1 l1 = Inr (Some p) \<and> parse_seat f b = Inl e"
  then show "relocate_passenger f a b = (Inl e, f)"
    by (simp add: relocate_passenger_def occupant_def)
next
  fix r1 l1 p r2 l2 q
  assume "parse_seat f a = Inr (r1, l1) \<and> occupant f r1 l1 = Inr (Some p) \<and>
     parse_seat f b = Inr (r2, l2) \<and> occupant f r2 l2 = Inr (Some q)"
  then show "relocate_passenger f a b = (Inl (ValueError SeatOccupied), f)"
    by (simp add: relocate_passenger_def occupant_def)
next
  fix r1 l1 p r2 l2
  assume "parse_seat f a = Inr (r1, l1) \<and> occupant f r1 l1 = Inr (Some p) \<and>
     parse_seat f b = Inr (r2, l2) \<and> occupant f r2 l2 = Inr None"
  then show "\<exists>f'. relocate_passenger f a b = (Inr (), f') \<and>
         occupant f' r2 l2 = Inr (Some p) \<and> occupant f' r1 l1 = Inr None \<and>
         (\<forall>r l. 0 \<le> r \<and> (r, l) \<noteq> (r1, l1) \<and> (r, l) \<noteq> (r2, l2) \<longrightarrow>
            occupant f' r l = occupant f r l) \<and>
         priv_number f' = priv_number f \<and> priv_aircraft f' = priv_aircraft f"
    using relocate_passenger_effect by blast
next
  fix e f' assume "relocate_passenger f a b = (Inl e, f')"
  then show "f' = f" by (rule relocate_passenger_failure_unchanged)
next
  fix s r l assume "flight_inv f" and "parse_seat f s = Inr (r, l)"
  then show "\<exists>v. occupant f r l = Inr v" unfolding occupant_def by (rule flight_inv_parsed)
qed


theorem relocate_passenger_spec_witness:
  "flight_inv flight_f \<and>
   parse_seat flight_f ''99Z'' = Inl (ValueError InvalidSeatLetter) \<and>
   relocate_passenger flight_f ''99Z'' ''2C'' = (Inl (ValueError InvalidSeatLetter), flight_f) \<and>
   parse_seat flight_f ''2C'' = Inr (2, CHR ''C'') \<and> occupant flight_f 2 (CHR ''C'') = Inr None \<and>
   relocate_passenger flight_f ''2C'' ''3C'' = (Inl (ValueError NoPassengerToRelocate), flight_f) \<and>
   parse_seat flight_f ''1C'' = Inr (1, CHR ''C'') \<and>
   occupant flight_f 1 (CHR ''C'') = Inr (Some ''Tim Cathy'') \<and>
   parse_seat flight_f ''23C'' = Inl (ValueError InvalidRowNumber) \<and>
   relocate_passenger flight_f ''1C'' ''23C'' = (Inl (ValueError InvalidRowNumber), flight_f) \<and>
   parse_seat flight_f ''1D'' = Inr (1, CHR ''D'') \<and>
   occupant flight_f 1 (CHR ''D'') = Inr (Some ''John Bushman'') \<and>
   relocate_passenger flight_f ''1C'' ''1D'' = (Inl (ValueError SeatOccupied), flight_f) \<and>
   (\<exists>f'. relocate_passenger flight_f ''1C'' ''2C'' = (Inr (), f') \<and>
      occupant f' 2 (CHR ''C'') = Inr (Some ''Tim Cathy'') \<and> occupant f' 1 (CHR ''C'') = Inr None \<and>
      occupant f' 1 (CHR ''D'') = occupant flight_f 1 (CHR ''D''))"
proof -
  note inv = flight_f_inv and z = flight_f_parse_99Z and c2 = flight_f_parse_2C
    and o2 = flight_f_occupant_2C and c1 = flight_f_parse_1C and o1 = flight_f_occupant_1C
    and c23 = flight_f_parse_23C and d1 = flight_f_parse_1D and od = flight_f_occupant_1D
  note s1 = relocate_passenger_spec [of flight_f "''99Z''" "''2C''", THEN conjunct1, rule_format]
  note s2 = relocate_passenger_spec [of flight_f "''2C''" "''3C''", THEN conjunct2, THEN conjunct1,
      rule_format]
  note s3 = relocate_passenger_spec [of flight_f "''1C''" "''23C''", THEN conjunct2, THEN conjunct2,
      THEN conjunct1, rule_format]
  note s4 = relocate_passenger_spec [of flight_f "''1C''" "''1D''", THEN conjunct2, THEN conjunct2,
      THEN conjunct2, THEN conjunct1, rule_format]
  note s5 = relocate_passenger_spec [of flight_f "''1C''" "''2C''", THEN conjunct2, THEN conjunct2,
      THEN conjunct2, THEN conjunct2, THEN conjunct1, rule_format]
  have r1: "relocate_passenger flight_f ''99Z'' ''2C'' = (Inl (ValueError InvalidSeatLetter), flight_f)"
    by (rule s1 [OF z])
  have r2: "relocate_passenger flight_f ''2C'' ''3C'' = (Inl (ValueError NoPassengerToRelocate), flight_f)"
    by (rule s2 [OF conjI [OF c2 o2]])
  have r3: "relocate_passenger flight_f ''1C'' ''23C'' = (Inl (ValueError InvalidRowNumber), flight_f)"
    by (rule s3 [OF conjI [OF c1 conjI [OF o1 c23]]])
  have r4: "relocate_passenger flight_f ''1C'' ''1D'' = (Inl (ValueError SeatOccupied), flight_f)"
    by (rule s4 [OF conjI [OF c1 conjI [OF o1 conjI [OF d1 od]]]])
  from s5 [OF conjI [OF c1 conjI [OF o1 conjI [OF c2 o2]]]]
  obtain f' where f1: "relocate_passenger flight_f ''1C'' ''2C'' = (Inr (), f')"
    and f2: "occupant f' 2 (CHR ''C'') = Inr (Some ''Tim Cathy'')"
    and f3: "occupant f' 1 (CHR ''C'') = Inr None"
    and fr: "\<forall>r l. 0 \<le> r \<and> (r, l) \<noteq> (1, CHR ''C'') \<and> (r, l) \<noteq> (2, CHR ''C'') \<longrightarrow>
            occupant f' r l = occupant flight_f r l"
    by (elim exE conjE)
  from fr have f4: "occupant f' 1 (CHR ''D'') = occupant flight_f 1 (CHR ''D'')" by simp
  from f1 f2 f3 f4
  have ex: "\<exists>f'. relocate_passenger flight_f ''1C'' ''2C'' = (Inr (), f') \<and>
      occupant f' 2 (CHR ''C'') = Inr (Some ''Tim Cathy'') \<and> occupant f' 1 (CHR ''C'') = Inr None \<and>
      occupant f' 1 (CHR ''D'') = occupant flight_f 1 (CHR ''D'')" by (intro exI conjI)
  show ?thesis
    by (intro conjI) (rule inv z c2 o2 c1 o1 c23 d1 od r1 r2 r3 r4 ex)+
qed

text \<open>
  C4. On a seat \<open>s\<close> of the plan, \<open>allocate_seat\<close> raises the \<open>ValueError\<close> of line 72
  (the specification's \<open>SeatTaken\<close>) if the seat has an occupant, and otherwise succeeds
  and makes the passenger its occupant, every other seat, the number and the aircraft
  staying as they were; allocating the same seat again then raises that \<open>ValueError\<close>
  for any passenger, with the flight, and so the first occupant, unchanged. Whenever the
  call raises, the flight is unchanged. On a well-formed flight reading a seat that parses
  never raises.
\<close>

theorem allocate_seat_spec:
  "(\<forall>r l q. parse_seat f s = Inr (r, l) \<and> occupant f r l = Inr (Some q) \<longrightarrow>
      allocate_seat f s p = (Inl (ValueError SeatAlreadyOccupied), f)) \<and>
   (\<forall>r l. parse_seat f s = Inr (r, l) \<and> occupant f r l = Inr None \<longrightarrow>
      (\<exists>f'. allocate_seat f s p = (Inr (), f') \<and> occupant f' r l = Inr (Some p) \<and>
         (\<forall>r' l'. 0 \<le> r' \<and> (r', l') \<noteq> (r, l) \<longrightarrow> occupant f' r' l' = occupant f r' l') \<and>
         priv_number f' = priv_number f \<and> priv_aircraft f' = priv_aircraft f \<and>
         (\<forall>p'. allocate_seat f' s p' = (Inl (ValueError SeatAlreadyOccupied), f')))) \<and>
   (\<forall>e f'. allocate_seat f s p = (Inl e, f') \<longrightarrow> f' = f) \<and>
   (flight_inv f \<longrightarrow> (\<forall>r l. parse_seat f s = Inr (r, l) \<longrightarrow> (\<exists>v. occupant f r l = Inr v)))"
proof (intro conjI allI impI)
  fix r l q assume "parse_seat f s = Inr (r, l) \<and> occupant f r l = Inr (Some q)"
  then show "allocate_seat f s p = (Inl (ValueError SeatAlreadyOccupied), f)"
    by (simp add: allocate_seat_def occupant_def)
next
  fix r l assume "parse_seat f s = Inr (r, l) \<and> occupant f r l = Inr None"
  then show "\<exists>f'. allocate_seat f s p = (Inr (), f') \<and> occupant f' r l = Inr (Some p) \<and>
         (\<forall>r' l'. 0 \<le> r' \<and> (r', l') \<noteq> (r, l) \<longrightarrow> occupant f' r' l' = occupant f r' l') \<and>
         priv_number f' = priv_number f \<and> priv_aircraft f' = priv_aircraft f \<and>
         (\<forall>p'. allocate_seat f' s p' = (Inl (ValueError SeatAlreadyOccupied), f'))"
    using allocate_seat_effect by blast
next
  fix e f' assume "allocate_seat f s p = (Inl e, f')"
  then show "f' = f" by (rule allocate_seat_failure_unchanged)
next
  fix r l assume "flight_inv f" and "parse_seat f s = Inr (r, l)"
  then show "\<exists>v. occupant f r l = Inr v" unfolding occupant_def by (rule flight_inv_parsed)
qed

theorem allocate_seat_spec_witness:
  "flight_inv flight_f \<and>
   parse_seat flight_f ''1C'' = Inr (1, CHR ''C'') \<and>
   occupant flight_f 1 (CHR ''C'') = Inr (Some ''Tim Cathy'') \<and>
   allocate_seat flight_f ''1C'' ''Ann'' = (Inl (ValueError SeatAlreadyOccupied), flight_f) \<and>
   parse_seat flight_f ''2C'' = Inr (2, CHR ''C'') \<and> occupant flight_f 2 (CHR ''C'') = Inr None \<and>
   (\<exists>f'. allocate_seat flight_f ''2C'' ''Ann'' = (Inr (), f') \<and>
      occupant f' 2 (CHR ''C'') = Inr (Some ''Ann'') \<and>
      occupant f' 1 (CHR ''C'') = occupant flight_f 1 (CHR ''C'') \<and>
      allocate_seat f' ''2C'' ''Bea'' = (Inl (ValueError SeatAlreadyOccupied), f'))"
proof -
  note s1 = allocate_seat_spec [of flight_f "''1C''" "''Ann''", THEN conjunct1, rule_format]
  note s2 = allocate_seat_spec [of flight_f "''2C''" "''Ann''", THEN conjunct2, THEN conjunct1,
      rule_format]
  have r1: "allocate_seat flight_f ''1C'' ''Ann'' = (Inl (ValueError SeatAlreadyOccupied), flight_f)"
    by (rule s1 [OF conjI [OF flight_f_parse_1C flight_f_occupant_1C]])
  from s2 [OF conjI [OF flight_f_parse_2C flight_f_occupant_2C]]
  obtain f' where f1: "allocate_seat flight_f ''2C'' ''Ann'' = (Inr (), f')"
    and f2: "occupant f' 2 (CHR ''C'') = Inr (Some ''Ann'')"
    and fr: "\<forall>r' l'. 0 \<le> r' \<and> (r', l') \<noteq> (2, CHR ''C'') \<longrightarrow> occupant f' r' l' = occupant flight_f r' l'"
    and ag: "\<forall>p'. allocate_seat f' ''2C'' p' = (Inl (ValueError SeatAlreadyOccupied), f')"
    by (elim exE conjE)
  from fr have f3: "occupant f' 1 (CHR ''C'') = occupant flight_f 1 (CHR ''C'')" by simp
  from ag have f4: "allocate_seat f' ''2C'' ''Bea'' = (Inl (ValueError SeatAlreadyOccupied), f')" by (rule spec)
  from f1 f2 f3 f4
  have ex: "\<exists>f'. allocate_seat flight_f ''2C'' ''Ann'' = (Inr (), f') \<and>
      occupant f' 2 (CHR ''C'') = Inr (Some ''Ann'') \<and>
      occupant f' 1 (CHR ''C'') = occupant flight_f 1 (CHR ''C'') \<and>
      allocate_seat f' ''2C'' ''Bea'' = (Inl (ValueError SeatAlreadyOccupied), f')"
    by (intro exI conjI)
  show ?thesis
    by (intro conjI)
      (rule flight_f_inv flight_f_parse_1C flight_f_occupant_1C r1 flight_f_parse_2C
        flight_f_occupant_2C ex)+
qed


text \<open>
  C3. The last character of a non-empty seat designator is the letter and the rest is the
  row text. Parsing raises the \<open>ValueError\<close> of line 45 (\<open>InvalidSeatLetter\<close>) if the
  letter is not one of the aircraft's; with a valid letter it raises the \<open>ValueError\<close> of
  line 51 if \<open>int\<close> rejects the row text and that of line 54 if the row is not one of the
  aircraft's (both are the specification's \<open>InvalidSeatRow\<close>); otherwise it returns the
  row and the letter. Every seat of the plan is parsed from its designator, the row number
  followed by the letter. The result depends on the designator and the aircraft only, so
  parsing the same designator again gives the same pair, whatever happened to the
  seating in between.
\<close>

theorem parse_seat_spec:
  "seating_plan (priv_aircraft f) = (rows, letters) \<longrightarrow>
     (s \<noteq> [] \<and> last s \<notin> set letters \<longrightarrow>
        parse_seat f s = Inl (ValueError InvalidSeatLetter)) \<and>
     (s \<noteq> [] \<and> last s \<in> set letters \<and> py_int (butlast s) = None \<longrightarrow>
        parse_seat f s = Inl (ValueError InvalidSeatRow)) \<and>
     (\<forall>row. s \<noteq> [] \<and> last s \<in> set letters \<and> py_int (butlast s) = Some row \<and>
        row \<notin> set rows \<longrightarrow> parse_seat f s = Inl (ValueError InvalidRowNumber)) \<and>
     (\<forall>row. s \<noteq> [] \<and> last s \<in> set letters \<and> py_int (butlast s) = Some row \<and>
        row \<in> set rows \<longrightarrow> parse_seat f s = Inr (row, last s)) \<and>
     (\<forall>row letter. row \<in> set rows \<and> letter \<in> set letters \<longrightarrow>
        parse_seat f (str_int row @ [letter]) = Inr (row, letter)) \<and>
     (\<forall>f'. priv_aircraft f' = priv_aircraft f \<longrightarrow> parse_seat f' s = parse_seat f s)"
proof (intro impI conjI allI)
  assume p: "seating_plan (priv_aircraft f) = (rows, letters)"
  show "parse_seat f (str_int row @ [letter]) = Inr (row, letter)"
    if "row \<in> set rows \<and> letter \<in> set letters" for row letter
    using parse_seat_designator [OF p] that by simp
qed (auto simp: parse_seat_def)

theorem parse_seat_spec_witness:
  "seating_plan (priv_aircraft flight_f) = ([1..22], ''ABCDEF'') \<and>
   parse_seat flight_f ''99Z'' = Inl (ValueError InvalidSeatLetter) \<and>
   py_int ''x'' = None \<and> parse_seat flight_f ''xC'' = Inl (ValueError InvalidSeatRow) \<and>
   py_int ''23'' = Some 23 \<and> parse_seat flight_f ''23C'' = Inl (ValueError InvalidRowNumber) \<and>
   py_int ''1'' = Some 1 \<and> parse_seat flight_f ''1C'' = Inr (1, CHR ''C'') \<and>
   str_int 12 @ ''A'' = ''12A'' \<and> parse_seat flight_f ''12A'' = Inr (12, CHR ''A'') \<and>
   parse_seat (snd (relocate_passenger flight_f ''1C'' ''2C'')) ''1C'' = parse_seat flight_f ''1C''"
proof -
  have p: "seating_plan (priv_aircraft flight_f) = ([1..22], ''ABCDEF'')"
    by (simp add: flight_f_aircraft)
  have x: "py_int ''x'' = None" by code_simp
  have n23: "py_int ''23'' = Some 23" by code_simp
  have n1: "py_int ''1'' = Some 1" by code_simp
  have a: "parse_seat flight_f ''99Z'' = Inl (ValueError InvalidSeatLetter)"
    using parse_seat_spec [of flight_f "[1..22]" "''ABCDEF''" "''99Z''"] p by simp
  have b: "parse_seat flight_f ''xC'' = Inl (ValueError InvalidSeatRow)"
    using parse_seat_spec [of flight_f "[1..22]" "''ABCDEF''" "''xC''"] p x by simp
  have c: "parse_seat flight_f ''23C'' = Inl (ValueError InvalidRowNumber)"
    using parse_seat_spec [of flight_f "[1..22]" "''ABCDEF''" "''23C''"] p n23 by simp
  have d: "parse_seat flight_f ''1C'' = Inr (1, CHR ''C'')"
    using parse_seat_spec [of flight_f "[1..22]" "''ABCDEF''" "''1C''"] p n1 by simp
  have e: "str_int 12 @ ''A'' = ''12A''" by code_simp
  note s = parse_seat_spec [of flight_f "[1..22]" "''ABCDEF''" "''1C''", rule_format, OF p]
  have "parse_seat flight_f (str_int 12 @ [CHR ''A'']) = Inr (12, CHR ''A'')"
    by (rule s [THEN conjunct2, THEN conjunct2, THEN conjunct2, THEN conjunct2, THEN conjunct1,
          rule_format]) simp
  with e have g: "parse_seat flight_f ''12A'' = Inr (12, CHR ''A'')" by simp
  have h: "parse_seat (snd (relocate_passenger flight_f ''1C'' ''2C'')) ''1C'' = parse_seat flight_f ''1C''"
    by (rule s [THEN conjunct2, THEN conjunct2, THEN conjunct2, THEN conjunct2, THEN conjunct2,
          rule_format]) (rule relocate_passenger_aircraft)
  show ?thesis by (intro conjI) (rule p x n23 n1 a b c d e g h)+
qed

text \<open>
  C10, as amended. Parsing the empty designator raises \<open>IndexError\<close>, which is none of
  the \<open>ValueError\<close>s of seat parsing, and so do \<open>allocate_seat\<close> on the empty designator
  and \<open>relocate_passenger\<close> from the empty designator. \<open>relocate_passenger\<close> to the empty
  designator raises it only once the source seat has passed its checks: before that it
  raises the parse error of \<open>from_seat\<close>, or the \<open>ValueError\<close> of line 86 if that seat is
  empty. No flight is changed. Parsing a non-empty designator never raises
  \<open>IndexError\<close>: it returns a seat or raises one of the three \<open>ValueError\<close>s.
\<close>

theorem parse_seat_empty:
  "parse_seat f [] = Inl IndexError \<and>
   allocate_seat f [] p = (Inl IndexError, f) \<and>
   relocate_passenger f [] b = (Inl IndexError, f) \<and>
   (\<forall>a r l q. parse_seat f a = Inr (r, l) \<and> occupant f r l = Inr (Some q) \<longrightarrow>
      relocate_passenger f a [] = (Inl IndexError, f)) \<and>
   (\<forall>a e. parse_seat f a = Inl e \<longrightarrow> relocate_passenger f a [] = (Inl e, f)) \<and>
   (\<forall>a r l. parse_seat f a = Inr (r, l) \<and> occupant f r l = Inr None \<longrightarrow>
      relocate_passenger f a [] = (Inl (ValueError NoPassengerToRelocate), f)) \<and>
   (\<forall>s. s \<noteq> [] \<longrightarrow>
      parse_seat f s \<noteq> Inl IndexError \<and>
      ((\<exists>r l. parse_seat f s = Inr (r, l)) \<or>
       parse_seat f s = Inl (ValueError InvalidSeatLetter) \<or>
       parse_seat f s = Inl (ValueError InvalidSeatRow) \<or>
       parse_seat f s = Inl (ValueError InvalidRowNumber)))"
proof -
  have e: "parse_seat f [] = Inl IndexError"
    by (simp add: parse_seat_def split: prod.splits)
  have ne: "parse_seat f s \<noteq> Inl IndexError" if "s \<noteq> []" for s
    using that by (simp add: parse_seat_def split: prod.splits option.splits)
  have tot: "(\<exists>r l. parse_seat f s = Inr (r, l)) \<or>
      parse_seat f s = Inl (ValueError InvalidSeatLetter) \<or>
      parse_seat f s = Inl (ValueError InvalidSeatRow) \<or>
      parse_seat f s = Inl (ValueError InvalidRowNumber)" if "s \<noteq> []" for s
    using that by (simp add: parse_seat_def split: prod.splits option.splits)
  from e ne tot show ?thesis
    by (simp add: allocate_seat_def relocate_passenger_def occupant_def)
qed

theorem parse_seat_empty_witness:
  "parse_seat flight_f [] = Inl IndexError \<and>
   allocate_seat flight_f [] ''Ann'' = (Inl IndexError, flight_f) \<and>
   relocate_passenger flight_f [] ''2C'' = (Inl IndexError, flight_f) \<and>
   parse_seat flight_f ''1C'' = Inr (1, CHR ''C'') \<and>
   occupant flight_f 1 (CHR ''C'') = Inr (Some ''Tim Cathy'') \<and>
   relocate_passenger flight_f ''1C'' [] = (Inl IndexError, flight_f) \<and>
   parse_seat flight_f ''99Z'' = Inl (ValueError InvalidSeatLetter) \<and>
   relocate_passenger flight_f ''99Z'' [] = (Inl (ValueError InvalidSeatLetter), flight_f) \<and>
   parse_seat flight_f ''2C'' = Inr (2, CHR ''C'') \<and> occupant flight_f 2 (CHR ''C'') = Inr None \<and>
   relocate_passenger flight_f ''2C'' [] = (Inl (ValueError NoPassengerToRelocate), flight_f)"
proof -
  note s = parse_seat_empty [of flight_f "''Ann''" "''2C''"]
  note s4 = s [THEN conjunct2, THEN conjunct2, THEN conjunct2, THEN conjunct1, rule_format]
  note s5 = s [THEN conjunct2, THEN conjunct2, THEN conjunct2, THEN conjunct2, THEN conjunct1,
      rule_format]
  note s6 = s [THEN conjunct2, THEN conjunct2, THEN conjunct2, THEN conjunct2, THEN conjunct2,
      THEN conjunct1, rule_format]
  have r: "relocate_passenger flight_f ''1C'' [] = (Inl IndexError, flight_f)"
    by (rule s4 [OF conjI [OF flight_f_parse_1C flight_f_occupant_1C]])
  have z: "relocate_passenger flight_f ''99Z'' [] = (Inl (ValueError InvalidSeatLetter), flight_f)"
    by (rule s5 [OF flight_f_parse_99Z])
  have n: "relocate_passenger flight_f ''2C'' [] = (Inl (ValueError NoPassengerToRelocate), flight_f)"
    by (rule s6 [OF conjI [OF flight_f_parse_2C flight_f_occupant_2C]])
  show ?thesis
    by (intro conjI)
      (rule s [THEN conjunct1] s [THEN conjunct2, THEN conjunct1]
        s [THEN conjunct2, THEN conjunct2, THEN conjunct1]
        flight_f_parse_1C flight_f_occupant_1C r flight_f_parse_99Z z flight_f_parse_2C
        flight_f_occupant_2C n)+
qed

text \<open>
  The claim as it was stated fails: \<open>relocate_passenger\<close> called with the empty
  designator as \<open>to_seat\<close> raises the \<open>ValueError\<close> of line 45, a seat error of the
  specification, when \<open>from_seat\<close> has no valid letter, and that of line 86 when the
  seat of \<open>from_seat\<close> is empty. Neither is an \<open>IndexError\<close>.
\<close>

theorem relocate_to_empty_counterexample:
  "relocate_passenger flight_f ''99Z'' [] = (Inl (ValueError InvalidSeatLetter), flight_f) \<and>
   relocate_passenger flight_f ''2C'' [] = (Inl (ValueError NoPassengerToRelocate), flight_f) \<and>
   ValueError InvalidSeatLetter \<noteq> IndexError \<and> ValueError NoPassengerToRelocate \<noteq> IndexError"
  by (intro conjI) code_simp+

text \<open>
  C9. Relocating the passenger of an occupied seat of the plan to that same seat raises
  the \<open>ValueError\<close> of line 90 (the specification's \<open>SeatTaken\<close>): the check of the
  destination finds the seat's own occupant. The flight is left as it was.
\<close>

theorem relocate_self: 
  assumes "parse_seat f s = Inr (r, l)" and "occupant f r l = Inr (Some p)"
  shows "relocate_passenger f s s = (Inl (ValueError SeatOccupied), f)"
  using assms by (simp add: relocate_passenger_def occupant_def)

theorem relocate_self_witness:
  "parse_seat flight_f ''1C'' = Inr (1, CHR ''C'') \<and>
   occupant flight_f 1 (CHR ''C'') = Inr (Some ''Tim Cathy'') \<and>
   relocate_passenger flight_f ''1C'' ''1C'' = (Inl (ValueError SeatOccupied), flight_f)"
proof -
  note a = flight_f_parse_1C and b = flight_f_occupant_1C
  from relocate_self [OF a b] a b show ?thesis by simp
qed


text \<open>
  C6. If seat \<open>a\<close> of the plan is occupied and seat \<open>b\<close> of the plan is empty, relocating
  from \<open>a\<close> to \<open>b\<close> succeeds, relocating back from \<open>b\<close> to \<open>a\<close> succeeds as well, and
  the flight after both is the flight before them: the seating is restored exactly.
\<close>

theorem relocate_round_trip:
  assumes pa: "parse_seat f a = Inr (r1, l1)" and pb: "parse_seat f b = Inr (r2, l2)"
    and ga: "occupant f r1 l1 = Inr (Some p)" and gb: "occupant f r2 l2 = Inr None"
  shows "\<exists>f1. relocate_passenger f a b = (Inr (), f1) \<and> relocate_passenger f1 b a = (Inr (), f)"
proof -
  from pa pb have r1: "0 \<le> r1" and r2: "0 \<le> r2" by (auto dest: parse_seat_nonneg)
  from ga gb have ne: "(r2, l2) \<noteq> (r1, l1)" by auto
  let ?sg = "priv_seating f"
  from relocate_passenger_moves [OF pa ga [unfolded occupant_def] pb gb [unfolded occupant_def]]
  obtain sg1 sg2 where s1: "seat_set ?sg r2 l2 (Some p) = Inr sg1"
    and s2: "seat_set sg1 r1 l1 None = Inr sg2"
    and rel: "relocate_passenger f a b = (Inr (), f\<lparr>priv_seating := sg2\<rparr>)"
    by blast
  let ?f1 = "f\<lparr>priv_seating := sg2\<rparr>"
  have g12: "seat_get sg1 r2 l2 = Inr (Some p)" using seat_get_set_same [OF r2 s1] .
  have g11: "seat_get sg1 r1 l1 = Inr (Some p)"
    using seat_get_set_other [OF r2 r1 _ s1] ne ga by (auto simp: occupant_def)
  have g22: "seat_get sg2 r2 l2 = Inr (Some p)"
    using seat_get_set_other [OF r1 r2 ne s2] g12 by simp
  have g21: "seat_get sg2 r1 l1 = Inr None" using seat_get_set_same [OF r1 s2] .
  from relocate_passenger_moves [of ?f1 b r2 l2 p a r1 l1] pa pb g22 g21
  obtain sg3 sg4 where s3: "seat_set sg2 r1 l1 (Some p) = Inr sg3"
    and s4: "seat_set sg3 r2 l2 None = Inr sg4"
    and rel2: "relocate_passenger ?f1 b a = (Inr (), ?f1\<lparr>priv_seating := sg4\<rparr>)"
    by auto
  from s3 seat_set_set_same [OF r1 s2] have "seat_set sg1 r1 l1 (Some p) = Inr sg3" by simp
  with seat_set_same_value [OF r1 g11] have e3: "sg3 = sg1" by simp
  from s4 e3 seat_set_set_same [OF r2 s1] have "seat_set ?sg r2 l2 None = Inr sg4" by simp
  with seat_set_same_value [OF r2 gb [unfolded occupant_def]] have "sg4 = ?sg" by simp
  with rel rel2 show ?thesis by simp
qed

theorem relocate_round_trip_witness:
  "parse_seat flight_f ''1C'' = Inr (1, CHR ''C'') \<and>
   parse_seat flight_f ''2C'' = Inr (2, CHR ''C'') \<and>
   occupant flight_f 1 (CHR ''C'') = Inr (Some ''Tim Cathy'') \<and>
   occupant flight_f 2 (CHR ''C'') = Inr None \<and>
   (\<exists>f1. relocate_passenger flight_f ''1C'' ''2C'' = (Inr (), f1) \<and>
      relocate_passenger f1 ''2C'' ''1C'' = (Inr (), flight_f))"
proof -
  note a = flight_f_parse_1C and b = flight_f_parse_2C and c = flight_f_occupant_1C
    and d = flight_f_occupant_2C
  from relocate_round_trip [OF a b c d] a b c d show ?thesis by simp
qed

text \<open>
  C8. For every flight reached from a construction by calls of \<open>allocate_seat\<close> and
  \<open>relocate_passenger\<close> (whether they succeed or raise), the keys of the seating map are
  exactly the seats of the bound aircraft's plan, rows times letters, each key once, and
  reading any of them gives one value: a passenger or \<open>None\<close>. Neither method changes
  the aircraft or the keys. A newly constructed flight is bound to the aircraft given and
  each of its seats is empty.
\<close>

theorem seating_invariant:
  "(reachable f \<longrightarrow>
      seating_keys (priv_seating f) = plan_seats f \<and>
      distinct (seating_keys (priv_seating f)) \<and>
      set (seating_keys (priv_seating f)) =
        set (fst (seating_plan (priv_aircraft f))) \<times> set (snd (seating_plan (priv_aircraft f))) \<and>
      (\<forall>r l. (r, l) \<in> set (seating_keys (priv_seating f)) \<longrightarrow> (\<exists>v. occupant f r l = Inr v)) \<and>
      (\<forall>s p. priv_aircraft (snd (allocate_seat f s p)) = priv_aircraft f \<and>
         seating_keys (priv_seating (snd (allocate_seat f s p))) = seating_keys (priv_seating f)) \<and>
      (\<forall>a b. priv_aircraft (snd (relocate_passenger f a b)) = priv_aircraft f \<and>
         seating_keys (priv_seating (snd (relocate_passenger f a b))) = seating_keys (priv_seating f))) \<and>
   (\<forall>n a f0. Flight_init n a = Inr f0 \<longrightarrow>
      priv_aircraft f0 = a \<and>
      (\<forall>r l. (r, l) \<in> set (seating_keys (priv_seating f0)) \<longrightarrow> occupant f0 r l = Inr None))"
proof (intro conjI impI allI)
  assume r: "reachable f"
  then have inv: "flight_inv f" by (rule reachable_inv)
  show k: "seating_keys (priv_seating f) = plan_seats f" using inv by (rule flight_inv_keys)
  show "distinct (seating_keys (priv_seating f))" using k plan_seats_distinct by simp
  show "set (seating_keys (priv_seating f)) =
        set (fst (seating_plan (priv_aircraft f))) \<times> set (snd (seating_plan (priv_aircraft f)))"
    using k plan_seats_set by simp
  show "\<exists>v. occupant f r l = Inr v" if "(r, l) \<in> set (seating_keys (priv_seating f))" for r l
    using that k plan_seats_set [of f] flight_inv_seat_get [OF inv, of r l]
    by (simp add: occupant_def)
  show "priv_aircraft (snd (allocate_seat f s p)) = priv_aircraft f" for s p
    by (rule allocate_seat_aircraft)
  show "seating_keys (priv_seating (snd (allocate_seat f s p))) = seating_keys (priv_seating f)"
    for s p
    using flight_inv_keys [OF allocate_seat_inv [OF inv, of s p]] k allocate_seat_aircraft [of f s p]
    by (simp add: plan_seats_def)
  show "priv_aircraft (snd (relocate_passenger f a b)) = priv_aircraft f" for a b
    by (rule relocate_passenger_aircraft)
  show "seating_keys (priv_seating (snd (relocate_passenger f a b))) = seating_keys (priv_seating f)"
    for a b
    using flight_inv_keys [OF relocate_passenger_inv [OF inv, of a b]] k
      relocate_passenger_aircraft [of f a b]
    by (simp add: plan_seats_def)
next
  fix n a f0 assume i: "Flight_init n a = Inr f0"
  show a: "priv_aircraft f0 = a" using Flight_init_Inr [OF i] by simp
  show "occupant f0 r l = Inr None" if "(r, l) \<in> set (seating_keys (priv_seating f0))" for r l
    using that flight_inv_keys [OF Flight_init_inv [OF i]] plan_seats_set [of f0] a
      Flight_init_empty [OF i, of r l]
    by simp
qed

theorem seating_invariant_witness:
  "reachable flight_f \<and>
   seating_keys (priv_seating flight_f) = plan_seats flight_f \<and>
   distinct (seating_keys (priv_seating flight_f)) \<and>
   (1, CHR ''C'') \<in> set (seating_keys (priv_seating flight_f)) \<and>
   occupant flight_f 1 (CHR ''C'') = Inr (Some ''Tim Cathy'') \<and>
   seating_keys (priv_seating (snd (relocate_passenger flight_f ''1C'' ''2C''))) =
     seating_keys (priv_seating flight_f) \<and>
   Flight_init ''AB221'' (AirbusA319 ''G-BGT2'') =
     Inr (projr (Flight_init ''AB221'' (AirbusA319 ''G-BGT2''))) \<and>
   occupant (projr (Flight_init ''AB221'' (AirbusA319 ''G-BGT2''))) 1 (CHR ''C'') = Inr None"
proof -
  note s = seating_invariant [of flight_f, THEN conjunct1, rule_format, OF flight_f_reachable]
  note k = s [THEN conjunct1]
  note d = s [THEN conjunct2, THEN conjunct1]
  note st = s [THEN conjunct2, THEN conjunct2, THEN conjunct1]
  note rel = s [THEN conjunct2, THEN conjunct2, THEN conjunct2, THEN conjunct2, THEN conjunct2,
      rule_format, THEN conjunct2]
  have m: "(1, CHR ''C'') \<in> set (seating_keys (priv_seating flight_f))"
    unfolding st flight_f_aircraft by simp
  have i: "Flight_init ''AB221'' (AirbusA319 ''G-BGT2'') =
     Inr (projr (Flight_init ''AB221'' (AirbusA319 ''G-BGT2'')))" by code_simp
  note c = seating_invariant [of flight_f, THEN conjunct2, rule_format, OF i, THEN conjunct2,
      rule_format]
  have "(1, CHR ''C'') \<in> set (seating_keys (priv_seating (projr (Flight_init ''AB221'' (AirbusA319 ''G-BGT2'')))))"
    by code_simp
  then have e: "occupant (projr (Flight_init ''AB221'' (AirbusA319 ''G-BGT2''))) 1 (CHR ''C'') = Inr None"
    by (rule c)
  show ?thesis
    by (intro conjI) (rule flight_f_reachable k d m flight_f_occupant_1C rel i e)+
qed

text \<open>
  C5. On a well-formed flight (every reachable flight is one) \<open>num_seats_available\<close>
  is the number of keys of the whole seating map whose seat is empty. On every flight a
  successful \<open>allocate_seat\<close> lowers it by exactly one and a successful
  \<open>relocate_passenger\<close> leaves it as it is. An \<open>AirbusA319\<close> has 132 seats, all
  available on a new flight; allocating \<open>1C\<close> and then \<open>1D\<close> on a new flight succeeds
  and leaves 130.
\<close>

theorem num_seats_available_spec:
  "(flight_inv f \<longrightarrow>
      num_seats_available f =
        int (length (filter (\<lambda>(r, l). occupant f r l = Inr None) (seating_keys (priv_seating f))))) \<and>
   (\<forall>s p f'. allocate_seat f s p = (Inr (), f') \<longrightarrow>
      num_seats_available f' = num_seats_available f - 1) \<and>
   (\<forall>a b f'. relocate_passenger f a b = (Inr (), f') \<longrightarrow>
      num_seats_available f' = num_seats_available f) \<and>
   (\<forall>n reg f0 p1 p2. Flight_init n (AirbusA319 reg) = Inr f0 \<longrightarrow>
      num_seats (AirbusA319 reg) = 132 \<and> num_seats_available f0 = 132 \<and>
      (\<exists>f1 f2. allocate_seat f0 ''1C'' p1 = (Inr (), f1) \<and>
         allocate_seat f1 ''1D'' p2 = (Inr (), f2) \<and> num_seats_available f2 = 130))"
proof (intro conjI impI allI)
  assume "flight_inv f"
  then show "num_seats_available f =
        int (length (filter (\<lambda>(r, l). occupant f r l = Inr None) (seating_keys (priv_seating f))))"
    using flight_inv_available flight_inv_keys by simp
next
  fix s p f' assume "allocate_seat f s p = (Inr (), f')"
  then show "num_seats_available f' = num_seats_available f - 1" by (rule allocate_seat_available)
next
  fix a b f' assume "relocate_passenger f a b = (Inr (), f')"
  then show "num_seats_available f' = num_seats_available f" by (rule relocate_passenger_available)
next
  fix n reg f0 p1 p2 assume i: "Flight_init n (AirbusA319 reg) = Inr f0"
  from A319_two_allocations [OF i, of p1 p2]
  show "num_seats (AirbusA319 reg) = 132" and "num_seats_available f0 = 132"
    and "\<exists>f1 f2. allocate_seat f0 ''1C'' p1 = (Inr (), f1) \<and>
         allocate_seat f1 ''1D'' p2 = (Inr (), f2) \<and> num_seats_available f2 = 130"
    by simp_all
qed

theorem num_seats_available_spec_witness:
  "flight_inv flight_f \<and>
   num_seats_available flight_f = 127 \<and>
   int (length (filter (\<lambda>(r, l). occupant flight_f r l = Inr None)
     (seating_keys (priv_seating flight_f)))) = 127 \<and>
   allocate_seat flight_f ''2C'' ''Ann'' = (Inr (), snd (allocate_seat flight_f ''2C'' ''Ann'')) \<and>
   num_seats_available (snd (allocate_seat flight_f ''2C'' ''Ann'')) = 126 \<and>
   relocate_passenger flight_f ''1C'' ''2C'' =
     (Inr (), snd (relocate_passenger flight_f ''1C'' ''2C'')) \<and>
   num_seats_available (snd (relocate_passenger flight_f ''1C'' ''2C'')) = 127 \<and>
   Flight_init ''AB221'' (AirbusA319 ''G-BGT2'') =
     Inr (projr (Flight_init ''AB221'' (AirbusA319 ''G-BGT2''))) \<and>
   (\<exists>f1 f2. allocate_seat (projr (Flight_init ''AB221'' (AirbusA319 ''G-BGT2''))) ''1C'' ''Tim'' =
        (Inr (), f1) \<and>
      allocate_seat f1 ''1D'' ''John'' = (Inr (), f2) \<and> num_seats_available f2 = 130)"
proof -
  note s = num_seats_available_spec [of flight_f]
  have n: "num_seats_available flight_f = 127" by code_simp
  from s [THEN conjunct1, rule_format, OF flight_f_inv] n
  have c: "int (length (filter (\<lambda>(r, l). occupant flight_f r l = Inr None)
     (seating_keys (priv_seating flight_f)))) = 127" by simp
  have al: "allocate_seat flight_f ''2C'' ''Ann'' = (Inr (), snd (allocate_seat flight_f ''2C'' ''Ann''))"
    by code_simp
  from s [THEN conjunct2, THEN conjunct1, rule_format, OF al] n
  have n1: "num_seats_available (snd (allocate_seat flight_f ''2C'' ''Ann'')) = 126" by simp
  have re: "relocate_passenger flight_f ''1C'' ''2C'' =
     (Inr (), snd (relocate_passenger flight_f ''1C'' ''2C''))" by code_simp
  from s [THEN conjunct2, THEN conjunct2, THEN conjunct1, rule_format, OF re] n
  have n2: "num_seats_available (snd (relocate_passenger flight_f ''1C'' ''2C'')) = 127" by simp
  have i: "Flight_init ''AB221'' (AirbusA319 ''G-BGT2'') =
     Inr (projr (Flight_init ''AB221'' (AirbusA319 ''G-BGT2'')))" by code_simp
  note sc = s [THEN conjunct2, THEN conjunct2, THEN conjunct2, rule_format, OF i,
      THEN conjunct2, THEN conjunct2, of "''Tim''" "''John''"]
  show ?thesis
    by (intro conjI) (rule flight_f_inv n c al n1 re n2 i sc)+
qed

text \<open>
  C7. On a well-formed flight \<open>make_boarding_cards\<close> never raises and calls the printer
  on the passenger and seat of \<open>sort (occupied_pairs f)\<close>, one call after the other in
  that order, each with the flight's number and the aircraft's model; with the printer
  that records its calls, the record is that list of cards. \<open>occupied_pairs f\<close> has one
  pair for each occupied seat of the plan, sorting keeps each pair as often as it
  occurs, and no seat designator is on two cards. The order is the lexicographic one on (passenger, seat designator): of two
  consecutive cards the first has the smaller name, or the same name and a seat
  designator that is not larger; so the card of a smaller name is printed before the card
  of a larger name, wherever they sit. On a new \<open>AirbusA319\<close> flight with Bob allocated
  \<open>2A\<close> and Alice \<open>1A\<close>, and likewise with Bob at \<open>1A\<close> and Alice at \<open>2A\<close>, Alice's
  card is printed first.
\<close>

theorem make_boarding_cards_spec:
  "(flight_inv f \<longrightarrow>
      (\<forall>card_printer w. make_boarding_cards f card_printer w =
         (Inr (), fold (\<lambda>(passenger, seat). card_printer passenger seat (number f) (aircraft_model f))
                       (sort (occupied_pairs f)) w)) \<and>
      make_boarding_cards f recording_printer [] =
        (Inr (), map (\<lambda>(passenger, seat). (passenger, seat, number f, aircraft_model f))
                     (sort (occupied_pairs f))) \<and>
      mset (sort (occupied_pairs f)) = mset (occupied_pairs f) \<and>
      length (occupied_pairs f) =
        length (filter (\<lambda>(r, l). case occupant f r l of Inr (Some p) \<Rightarrow> True | _ \<Rightarrow> False)
                       (plan_seats f)) \<and>
      distinct (map snd (sort (occupied_pairs f))) \<and>
      sorted_wrt (\<lambda>(p1, s1) (p2, s2). p1 < p2 \<or> (p1 = p2 \<and> s1 \<le> s2)) (sort (occupied_pairs f)) \<and>
      (\<forall>p1 s1 p2 s2. (p1, s1) \<in> set (occupied_pairs f) \<and> (p2, s2) \<in> set (occupied_pairs f) \<and>
         p1 < p2 \<longrightarrow>
         (\<exists>us vs ws. sort (occupied_pairs f) = us @ [(p1, s1)] @ vs @ [(p2, s2)] @ ws))) \<and>
   (\<forall>n reg f0. Flight_init n (AirbusA319 reg) = Inr f0 \<longrightarrow>
      (\<exists>f1 f2. allocate_seat f0 ''2A'' ''Bob'' = (Inr (), f1) \<and>
         allocate_seat f1 ''1A'' ''Alice'' = (Inr (), f2) \<and>
         make_boarding_cards f2 recording_printer [] =
           (Inr (), [(''Alice'', ''1A'', n, ''Airbus A319''), (''Bob'', ''2A'', n, ''Airbus A319'')])) \<and>
      (\<exists>f1 f2. allocate_seat f0 ''1A'' ''Bob'' = (Inr (), f1) \<and>
         allocate_seat f1 ''2A'' ''Alice'' = (Inr (), f2) \<and>
         make_boarding_cards f2 recording_printer [] =
           (Inr (), [(''Alice'', ''2A'', n, ''Airbus A319''), (''Bob'', ''1A'', n, ''Airbus A319'')])))"
proof (intro conjI impI allI)
  assume inv: "flight_inv f"
  note ps = flight_inv_passenger_seats [OF inv]
  show "make_boarding_cards f card_printer w =
         (Inr (), fold (\<lambda>(passenger, seat). card_printer passenger seat (number f) (aircraft_model f))
                       (sort (occupied_pairs f)) w)" for card_printer :: "string \<Rightarrow> string \<Rightarrow> string \<Rightarrow> string \<Rightarrow> 'w \<Rightarrow> 'w" and w
    by (simp add: make_boarding_cards_def ps)
  show "make_boarding_cards f recording_printer [] =
        (Inr (), map (\<lambda>(passenger, seat). (passenger, seat, number f, aircraft_model f))
                     (sort (occupied_pairs f)))"
    by (simp add: make_boarding_cards_def ps fold_recording_printer)
  show "mset (sort (occupied_pairs f)) = mset (occupied_pairs f)" by simp
  show "length (occupied_pairs f) =
        length (filter (\<lambda>(r, l). case occupant f r l of Inr (Some p) \<Rightarrow> True | _ \<Rightarrow> False)
                       (plan_seats f))" by (rule occupied_pairs_length)
  show "distinct (map snd (sort (occupied_pairs f)))" by (rule sort_seats_distinct)
  have "sorted (sort (occupied_pairs f))" by simp
  then show "sorted_wrt (\<lambda>(p1, s1) (p2, s2). p1 < p2 \<or> (p1 = p2 \<and> s1 \<le> s2)) (sort (occupied_pairs f))"
    unfolding lex_order_pairs .
  show "\<exists>us vs ws. sort (occupied_pairs f) = us @ [(p1, s1)] @ vs @ [(p2, s2)] @ ws"
    if "(p1, s1) \<in> set (occupied_pairs f) \<and> (p2, s2) \<in> set (occupied_pairs f) \<and> p1 < p2"
    for p1 s1 p2 s2
  proof (rule sorted_before)
    show "sorted (sort (occupied_pairs f))" by simp
    show "(p1, s1) \<in> set (sort (occupied_pairs f))" using that by simp
    show "(p2, s2) \<in> set (sort (occupied_pairs f))" using that by simp
    show "(p1, s1) < (p2, s2)" using that by (simp add: less_prod_def)
  qed
next
  fix n reg f0 assume i: "Flight_init n (AirbusA319 reg) = Inr f0"
  show "\<exists>f1 f2. allocate_seat f0 ''2A'' ''Bob'' = (Inr (), f1) \<and>
         allocate_seat f1 ''1A'' ''Alice'' = (Inr (), f2) \<and>
         make_boarding_cards f2 recording_printer [] =
           (Inr (), [(''Alice'', ''1A'', n, ''Airbus A319''), (''Bob'', ''2A'', n, ''Airbus A319'')])"
    by (rule A319_two_cards [OF i]) simp
  show "\<exists>f1 f2. allocate_seat f0 ''1A'' ''Bob'' = (Inr (), f1) \<and>
         allocate_seat f1 ''2A'' ''Alice'' = (Inr (), f2) \<and>
         make_boarding_cards f2 recording_printer [] =
           (Inr (), [(''Alice'', ''2A'', n, ''Airbus A319''), (''Bob'', ''1A'', n, ''Airbus A319'')])"
    by (rule A319_two_cards [OF i]) simp
qed

theorem make_boarding_cards_spec_witness:
  "flight_inv flight_f \<and>
   make_boarding_cards flight_f recording_printer [] =
     (Inr (), [(''Christopher Philips'', ''15E'', ''AB221'', ''Airbus A319''),
               (''Dinesh Mathur'', ''15F'', ''AB221'', ''Airbus A319''),
               (''John Bushman'', ''1D'', ''AB221'', ''Airbus A319''),
               (''Rahul'', ''12A'', ''AB221'', ''Airbus A319''),
               (''Tim Cathy'', ''1C'', ''AB221'', ''Airbus A319'')]) \<and>
   occupied_pairs flight_f =
     [(''Tim Cathy'', ''1C''), (''John Bushman'', ''1D''), (''Rahul'', ''12A''),
      (''Christopher Philips'', ''15E''), (''Dinesh Mathur'', ''15F'')] \<and>
   Flight_init ''AB221'' (AirbusA319 ''G-BGT2'') =
     Inr (projr (Flight_init ''AB221'' (AirbusA319 ''G-BGT2''))) \<and>
   (\<exists>f1 f2. allocate_seat (projr (Flight_init ''AB221'' (AirbusA319 ''G-BGT2''))) ''2A'' ''Bob'' =
        (Inr (), f1) \<and>
      allocate_seat f1 ''1A'' ''Alice'' = (Inr (), f2) \<and>
      make_boarding_cards f2 recording_printer [] =
        (Inr (), [(''Alice'', ''1A'', ''AB221'', ''Airbus A319''),
                  (''Bob'', ''2A'', ''AB221'', ''Airbus A319'')]))"
proof -
  note s = make_boarding_cards_spec [of flight_f]
  have o: "occupied_pairs flight_f =
     [(''Tim Cathy'', ''1C''), (''John Bushman'', ''1D''), (''Rahul'', ''12A''),
      (''Christopher Philips'', ''15E''), (''Dinesh Mathur'', ''15F'')]" by code_simp
  have nm: "number flight_f = ''AB221''" "aircraft_model flight_f = ''Airbus A319''"
    by code_simp+
  have st: "sort [(''Tim Cathy'', ''1C''), (''John Bushman'', ''1D''), (''Rahul'', ''12A''),
      (''Christopher Philips'', ''15E''), (''Dinesh Mathur'', ''15F'')] =
     [(''Christopher Philips'', ''15E''), (''Dinesh Mathur'', ''15F''), (''John Bushman'', ''1D''),
      (''Rahul'', ''12A''), (''Tim Cathy'', ''1C'')]" by code_simp
  from s [THEN conjunct1, rule_format, OF flight_f_inv, THEN conjunct2, THEN conjunct1]
  have c: "make_boarding_cards flight_f recording_printer [] =
     (Inr (), [(''Christopher Philips'', ''15E'', ''AB221'', ''Airbus A319''),
               (''Dinesh Mathur'', ''15F'', ''AB221'', ''Airbus A319''),
               (''John Bushman'', ''1D'', ''AB221'', ''Airbus A319''),
               (''Rahul'', ''12A'', ''AB221'', ''Airbus A319''),
               (''Tim Cathy'', ''1C'', ''AB221'', ''Airbus A319'')])"
    unfolding o nm st by simp
  have i: "Flight_init ''AB221'' (AirbusA319 ''G-BGT2'') =
     Inr (projr (Flight_init ''AB221'' (AirbusA319 ''G-BGT2'')))" by code_simp
  note sc = s [THEN conjunct2, rule_format, OF i, THEN conjunct1]
  show ?thesis by (intro conjI) (rule flight_f_inv c o i sc)+
qed

text \<open>
  C2, as amended. On numbers over the code points 0 to 255, constructing a flight
  succeeds exactly for a valid flight number: two characters that are uppercase letters,
  then a non-empty run of decimal digits, at most 4300 of them (the most that \<open>int\<close>
  reads), whose value is at most 9999. The flight then carries the number and the
  aircraft given, and \<open>airline\<close> returns the first two characters of the number. Every
  other number raises a \<open>ValueError\<close> (the specification's \<open>InvalidFormat\<close>): that of
  line 8, 11 or 14, or the one \<open>int\<close> itself raises, on a digit that is not decimal such
  as a superscript two, or on more than 4300 digits. So \<open>AB\<close>, zeros and \<open>1\<close> is accepted
  with up to 4299 zeros, \<open>AB00001\<close> among them, and refused with more. \<open>ab123\<close> and
  \<open>AB12345\<close> are refused, \<open>AB1234\<close> is accepted. Nothing is said of a number with a
  letter that has no case: there is none below code point 256.
\<close>

theorem Flight_init_spec:
  "(valid_flight_number n \<longrightarrow>
      (\<exists>f. Flight_init n a = Inr f \<and> number f = n \<and> airline f = take 2 n \<and> priv_aircraft f = a)) \<and>
   (\<not> valid_flight_number n \<longrightarrow>
      Flight_init n a = Inl (ValueError NoAirlineCode) \<or>
      Flight_init n a = Inl (ValueError InvalidAirlineCode) \<or>
      Flight_init n a = Inl (ValueError InvalidRouteNumber) \<or>
      Flight_init n a = Inl (ValueError InvalidLiteral)) \<and>
   (\<forall>k. k < 4300 \<longrightarrow> (\<exists>f. Flight_init (''AB'' @ replicate k (CHR ''0'') @ ''1'') a = Inr f)) \<and>
   (\<forall>k. 4300 \<le> k \<longrightarrow>
      Flight_init (''AB'' @ replicate k (CHR ''0'') @ ''1'') a = Inl (ValueError InvalidLiteral)) \<and>
   (\<exists>f. Flight_init ''AB00001'' a = Inr f) \<and>
   Flight_init ''ab123'' a = Inl (ValueError InvalidAirlineCode) \<and>
   Flight_init ''AB12345'' a = Inl (ValueError InvalidRouteNumber) \<and>
   (\<exists>f. Flight_init ''AB1234'' a = Inr f \<and> number f = ''AB1234'' \<and> airline f = ''AB'') \<and>
   Flight_init [CHR ''A'', CHR ''B'', CHR 0xB2] a = Inl (ValueError InvalidLiteral)"
proof (intro conjI impI allI)
  assume "valid_flight_number n"
  then show "\<exists>f. Flight_init n a = Inr f \<and> number f = n \<and> airline f = take 2 n \<and> priv_aircraft f = a"
    by (rule Flight_init_valid)
next
  assume "\<not> valid_flight_number n"
  then show "Flight_init n a = Inl (ValueError NoAirlineCode) \<or>
      Flight_init n a = Inl (ValueError InvalidAirlineCode) \<or>
      Flight_init n a = Inl (ValueError InvalidRouteNumber) \<or>
      Flight_init n a = Inl (ValueError InvalidLiteral)"
    by (rule Flight_init_invalid)
next
  fix k :: nat assume k: "k < 4300"
  have "valid_flight_number (''AB'' @ replicate k (CHR ''0'') @ ''1'')"
    unfolding valid_flight_number_zeros int_max_str_digits_def by (rule k)
  from Flight_init_valid [OF this, of a]
  show "\<exists>f. Flight_init (''AB'' @ replicate k (CHR ''0'') @ ''1'') a = Inr f" by (elim exE conjE exI)
next
  fix k :: nat assume "4300 \<le> k"
  then show "Flight_init (''AB'' @ replicate k (CHR ''0'') @ ''1'') a = Inl (ValueError InvalidLiteral)"
    by (intro Flight_init_zeros_refused) (simp add: int_max_str_digits_def)
next
  have "valid_flight_number ''AB00001''" by code_simp
  from Flight_init_valid [OF this, of a] show "\<exists>f. Flight_init ''AB00001'' a = Inr f"
    by (elim exE conjE exI)
next
  show "Flight_init ''ab123'' a = Inl (ValueError InvalidAirlineCode)" by code_simp
next
  show "Flight_init ''AB12345'' a = Inl (ValueError InvalidRouteNumber)" by code_simp
next
  have "valid_flight_number ''AB1234''" by code_simp
  from Flight_init_valid [OF this, of a]
  show "\<exists>f. Flight_init ''AB1234'' a = Inr f \<and> number f = ''AB1234'' \<and> airline f = ''AB''"
    by auto
next
  show "Flight_init [CHR ''A'', CHR ''B'', CHR 0xB2] a = Inl (ValueError InvalidLiteral)"
    by code_simp
qed

theorem Flight_init_spec_witness:
  "valid_flight_number ''AF72'' \<and>
   (\<exists>f. Flight_init ''AF72'' (Boeing777 ''F-GBPS'') = Inr f \<and> number f = ''AF72'' \<and>
      airline f = ''AF'' \<and> priv_aircraft f = Boeing777 ''F-GBPS'') \<and>
   \<not> valid_flight_number ''A1'' \<and>
   Flight_init ''A1'' (Boeing777 ''F-GBPS'') = Inl (ValueError NoAirlineCode) \<and>
   Flight_init ''ab123'' (Boeing777 ''F-GBPS'') = Inl (ValueError InvalidAirlineCode) \<and>
   (\<exists>f. Flight_init (''AB'' @ replicate 4 (CHR ''0'') @ ''1'') (Boeing777 ''F-GBPS'') = Inr f) \<and>
   Flight_init (''AB'' @ replicate 4300 (CHR ''0'') @ ''1'') (Boeing777 ''F-GBPS'') =
     Inl (ValueError InvalidLiteral)"
proof -
  note s = Flight_init_spec [of "''AF72''" "Boeing777 ''F-GBPS''"]
  have v: "valid_flight_number ''AF72''" by code_simp
  from s [THEN conjunct1, rule_format, OF v]
  have e: "\<exists>f. Flight_init ''AF72'' (Boeing777 ''F-GBPS'') = Inr f \<and> number f = ''AF72'' \<and>
      airline f = ''AF'' \<and> priv_aircraft f = Boeing777 ''F-GBPS''" by simp
  have nv: "\<not> valid_flight_number ''A1''" by code_simp
  have no: "Flight_init ''A1'' (Boeing777 ''F-GBPS'') \<noteq> Inl (ValueError InvalidAirlineCode)"
    "Flight_init ''A1'' (Boeing777 ''F-GBPS'') \<noteq> Inl (ValueError InvalidRouteNumber)"
    "Flight_init ''A1'' (Boeing777 ''F-GBPS'') \<noteq> Inl (ValueError InvalidLiteral)"
    by code_simp+
  from Flight_init_spec [of "''A1''" "Boeing777 ''F-GBPS''", THEN conjunct2, THEN conjunct1,
      rule_format, OF nv] no
  have a1: "Flight_init ''A1'' (Boeing777 ''F-GBPS'') = Inl (ValueError NoAirlineCode)" by simp
  note lc = s [THEN conjunct2, THEN conjunct2, THEN conjunct2, THEN conjunct2, THEN conjunct2,
      THEN conjunct1]
  have z4: "\<exists>f. Flight_init (''AB'' @ replicate 4 (CHR ''0'') @ ''1'') (Boeing777 ''F-GBPS'') = Inr f"
    by (rule s [THEN conjunct2, THEN conjunct2, THEN conjunct1, rule_format]) simp
  have z: "Flight_init (''AB'' @ replicate 4300 (CHR ''0'') @ ''1'') (Boeing777 ''F-GBPS'') =
     Inl (ValueError InvalidLiteral)"
    by (rule s [THEN conjunct2, THEN conjunct2, THEN conjunct2, THEN conjunct1, rule_format]) simp
  show ?thesis by (intro conjI) (rule v e nv a1 lc z4 z)+
qed

text \<open>
  The claim as it was stated fails: it puts no bound on the number of digits but the
  value. \<open>AB\<close>, 4300 zeros and \<open>1\<close> has two uppercase letters and then decimal digits
  only, of value 1, and constructing a flight with it raises the \<open>ValueError\<close> of \<open>int\<close>.
\<close>

theorem Flight_init_digits_counterexample:
  "list_all uppercase_letter ''AB'' \<and>
   list_all char_isdecimal (replicate 4300 (CHR ''0'') @ ''1'') \<and>
   decimal_value (replicate 4300 (CHR ''0'') @ ''1'') = 1 \<and>
   Flight_init (''AB'' @ replicate 4300 (CHR ''0'') @ ''1'') (AirbusA319 ''G-BGT2'') =
     Inl (ValueError InvalidLiteral)"
proof -
  have u: "list_all uppercase_letter ''AB''"
    by (simp add: uppercase_letter_def char_isalpha_def char_isupper_def in_range_def)
  have r: "Flight_init (''AB'' @ replicate 4300 (CHR ''0'') @ ''1'') (AirbusA319 ''G-BGT2'') =
     Inl (ValueError InvalidLiteral)"
    by (rule Flight_init_zeros_refused) (simp add: int_max_str_digits_def)
  from u zeros_and_one [of 4300] r show ?thesis by simp
qed

end
